theory Spec2Isabelle
  imports Complex_Main "HOL-Library.Multiset"
begin

section \<open>Klondike Solitaire core: data model (types.ts)\<close>

text \<open>
  JavaScript numbers that the core uses as counters, indices and scores are modelled as
  \<open>int\<close>; arrays are lists, bottom card first.  A run-time \<open>TypeError\<close> (reading a
  property of \<open>undefined\<close>) is a value of type \<open>exn\<close>, and a function that can raise
  it returns \<open>exn + 'a\<close>.  \<open>Date.now()\<close> is a parameter \<open>now\<close> of every operation that
  reads the clock.
\<close>

datatype exn = TypeError

datatype Suit = Hearts | Diamonds | Clubs | Spades

datatype Colour = Red | Black

record Card =
  card_id :: string
  suit :: Suit
  rank :: int
  faceUp :: bool

datatype PileType = Stock | Waste | Foundation | Tableau

record Pile =
  pile_id :: string
  ptype :: PileType
  cards :: "Card list"
  tableauIndex :: "int option"
  foundationSuit :: "Suit option"

datatype DrawMode = DrawOne | DrawThree

datatype ScoringMode = Standard | Vegas | NoScoring

record GameConfig =
  drawMode :: DrawMode
  scoringMode :: ScoringMode
  unlimitedPasses :: bool
  autoFlipTableau :: bool

record GameState =
  stock :: Pile
  waste :: Pile
  foundations :: "Pile list"
  tableau :: "Pile list"
  score :: int
  moves :: int
  startTime :: "int option"
  endTime :: "int option"
  isWon :: bool
  stockPasses :: int
  config :: GameConfig

record CardLocation =
  pileType :: PileType
  pileIndex :: int
  cardIndex :: int

record Move =
  move_from :: CardLocation
  move_to :: CardLocation
  cardCount :: int
  flippedCard :: bool
  scoreChange :: int

record HistoryEntry =
  entry_move :: Move
  previousState :: GameState

record MoveResult =
  success :: bool
  result_state :: "GameState option"
  result_error :: "string option"
  result_move :: "Move option"

text \<open>\<open>SUIT_INFO[card.suit].colour\<close>\<close>

fun suit_colour :: "Suit \<Rightarrow> Colour" where
  "suit_colour Hearts = Red"
| "suit_colour Diamonds = Red"
| "suit_colour Clubs = Black"
| "suit_colour Spades = Black"

definition getCardColour :: "Card \<Rightarrow> Colour" where
  "getCardColour crd = suit_colour (suit crd)"

subsection \<open>JavaScript array primitives\<close>

text \<open>\<open>xs[i]\<close>: \<open>undefined\<close> (here \<open>None\<close>) outside the array.\<close>

definition js_nth :: "'a list \<Rightarrow> int \<Rightarrow> 'a option" where
  "js_nth xs i = (if 0 \<le> i \<and> i < int (length xs) then Some (xs ! nat i) else None)"

text \<open>\<open>xs.at(-1)\<close>\<close>

definition js_last :: "'a list \<Rightarrow> 'a option" where
  "js_last xs = (if xs = [] then None else Some (last xs))"

text \<open>
  \<open>xs.splice(start, deleteCount)\<close>: the pair of the removed elements and of what is left
  in the array, with the clamping of both arguments that the language prescribes.
\<close>

definition js_splice :: "'a list \<Rightarrow> int \<Rightarrow> int \<Rightarrow> 'a list \<times> 'a list" where
  "js_splice xs start deleteCount =
     (let len = int (length xs);
          s = (if start < 0 then max (len + start) 0 else min start len);
          d = min (max deleteCount 0) (len - s)
      in (take (nat d) (drop (nat s) xs), take (nat s) xs @ drop (nat (s + d)) xs))"

text \<open>\<open>xs.slice(0, end)\<close>\<close>

definition js_slice0 :: "'a list \<Rightarrow> int \<Rightarrow> 'a list" where
  "js_slice0 xs e =
     (let len = int (length xs);
          k = (if e < 0 then max (len + e) 0 else min e len)
      in take (nat k) xs)"

section \<open>Card and deck model (deck.ts)\<close>

definition SUITS :: "Suit list" where
  "SUITS = [Hearts, Diamonds, Clubs, Spades]"

definition RANKS :: "int list" where
  "RANKS = [1, 2, 3, 4, 5, 6, 7, 8, 9, 10, 11, 12, 13]"

fun suit_name :: "Suit \<Rightarrow> string" where
  "suit_name Hearts = ''hearts''"
| "suit_name Diamonds = ''diamonds''"
| "suit_name Clubs = ''clubs''"
| "suit_name Spades = ''spades''"

text \<open>Decimal rendering of a number inside a template string.\<close>

fun digit_char :: "nat \<Rightarrow> char" where
  "digit_char n = char_of (48 + n)"

fun nat_str :: "nat \<Rightarrow> string" where
  "nat_str n = (if n < 10 then [digit_char n] else nat_str (n div 10) @ [digit_char (n mod 10)])"

definition int_str :: "int \<Rightarrow> string" where
  "int_str i = (if i < 0 then CHR ''-'' # nat_str (nat (- i)) else nat_str (nat i))"

definition createCardId :: "Suit \<Rightarrow> int \<Rightarrow> string" where
  "createCardId s r = suit_name s @ ''-'' @ int_str r"

definition createCard :: "Suit \<Rightarrow> int \<Rightarrow> bool \<Rightarrow> Card" where
  "createCard s r up = \<lparr>card_id = createCardId s r, suit = s, rank = r, faceUp = up\<rparr>"

definition createDeck :: "Card list" where
  "createDeck = concat (map (\<lambda>s. map (\<lambda>r. createCard s r False) RANKS) SUITS)"

subsection \<open>Numbers of the random sources\<close>

text \<open>
  A seed is a JavaScript number.  The model has the integers, \<open>NaN\<close> and the two
  infinities; a seed with a fractional part is outside the model, and negative zero is
  \<open>Finite 0\<close> (as a seed, as a remainder and as an array index it behaves as zero).
  Every finite value that the generator of \<open>shuffleWithSeed\<close> computes from such a seed
  is an integer, so its double-precision arithmetic is integer arithmetic followed by
  the rounding of the exact result to 53 significant bits, ties to even
  (\<open>round53\<close>), and by the overflow to an infinity at \<open>2 ^ 1024\<close> (\<open>to_double\<close>).
\<close>

datatype jsnum = Finite int | NaN | PosInf | NegInf

text \<open>The number of binary digits of a natural number.\<close>

fun bit_length :: "nat \<Rightarrow> nat" where
  "bit_length n = (if n = 0 then 0 else Suc (bit_length (n div 2)))"

declare bit_length.simps [simp del]

definition round53 :: "nat \<Rightarrow> nat" where
  "round53 n =
     (if n < 2 ^ 53 then n
      else let e = bit_length n - 53; q = n div 2 ^ e; r = n mod 2 ^ e; h = 2 ^ (e - 1)
           in if r < h \<or> (r = h \<and> even q) then q * 2 ^ e else (q + 1) * 2 ^ e)"

definition to_double :: "int \<Rightarrow> jsnum" where
  "to_double x =
     (let r = round53 (nat \<bar>x\<bar>)
      in if r \<ge> 2 ^ 1024 then (if x < 0 then NegInf else PosInf)
         else Finite (if x < 0 then - int r else int r))"

text \<open>\<open>a * x\<close> and \<open>x + c\<close> for integer constants, and \<open>x % m\<close> for a positive \<open>m\<close>
  (the remainder is exact and takes the sign of the dividend).\<close>

fun js_times :: "int \<Rightarrow> jsnum \<Rightarrow> jsnum" where
  "js_times a (Finite z) = to_double (a * z)"
| "js_times a NaN = NaN"
| "js_times a PosInf = (if a > 0 then PosInf else if a < 0 then NegInf else NaN)"
| "js_times a NegInf = (if a > 0 then NegInf else if a < 0 then PosInf else NaN)"

fun js_plus :: "jsnum \<Rightarrow> int \<Rightarrow> jsnum" where
  "js_plus (Finite z) c = to_double (z + c)"
| "js_plus NaN c = NaN"
| "js_plus PosInf c = PosInf"
| "js_plus NegInf c = NegInf"

fun js_rem :: "jsnum \<Rightarrow> int \<Rightarrow> jsnum" where
  "js_rem (Finite z) m = Finite (if z < 0 then - ((- z) mod m) else z mod m)"
| "js_rem NaN m = NaN"
| "js_rem PosInf m = NaN"
| "js_rem NegInf m = NaN"

text \<open>
  The value of a call of the random function: \<open>Frac z s\<close> is the double \<open>z / 2 ^ s\<close>.
  \<open>Math.random()\<close> returns a double in [0, 1), an integer multiple of \<open>2 ^ -1074\<close>;
  its \<open>k\<close>-th call returns \<open>rnd k / 2 ^ 1074\<close>, the numerators \<open>rnd\<close> being a parameter.
  \<open>seededRandom()\<close> is \<open>current = (a * current + c) % m; return current / m\<close> with
  \<open>a = 1103515245\<close>, \<open>c = 12345\<close>, \<open>m = 2 ** 31\<close>: after the remainder \<open>current\<close> is
  \<open>NaN\<close> or an integer of magnitude below \<open>2 ^ 31\<close>, which the division by \<open>2 ^ 31\<close>
  turns into a double exactly.
\<close>

datatype rand_value = Frac int nat | RNaN

definition mathRandom :: "(nat \<Rightarrow> nat) \<Rightarrow> nat \<Rightarrow> rand_value" where
  "mathRandom rnd k = Frac (int (rnd k)) 1074"

definition lcg_next :: "jsnum \<Rightarrow> jsnum" where
  "lcg_next current = js_rem (js_plus (js_times 1103515245 current) 12345) (2 ^ 31)"

definition seededRandom :: "jsnum \<Rightarrow> nat \<Rightarrow> rand_value" where
  "seededRandom seed k =
     (case (lcg_next ^^ Suc k) seed of Finite z \<Rightarrow> Frac z 31 | _ \<Rightarrow> RNaN)"

text \<open>
  \<open>Math.floor(v * n)\<close> for a count \<open>n\<close>: the exact product of the numerator and \<open>n\<close> is
  rounded to 53 bits and the quotient by \<open>2 ^ s\<close> is floored.
\<close>

definition floor_times :: "rand_value \<Rightarrow> nat \<Rightarrow> jsnum" where
  "floor_times v n =
     (case v of
        RNaN \<Rightarrow> NaN
      | Frac z s \<Rightarrow>
          Finite ((if z < 0 then - int (round53 (nat (- z) * n)) else int (round53 (nat z * n)))
                  div 2 ^ s))"

subsection \<open>Arrays with holes\<close>

text \<open>
  A JavaScript array: its indexed elements, each a value or \<open>undefined\<close> (\<open>None\<close>), and
  its other properties, which is where an element lands that is written under a key
  that is no array index (a negative number, \<open>NaN\<close>).  A write at an index past the end
  extends the array with holes.
\<close>

record 'a jsarray =
  elems :: "'a option list"
  props :: "jsnum \<Rightarrow> 'a option"

definition js_get :: "'a jsarray \<Rightarrow> jsnum \<Rightarrow> 'a option" where
  "js_get arr key =
     (case key of
        Finite k \<Rightarrow>
          if 0 \<le> k then (if k < int (length (elems arr)) then elems arr ! nat k else None)
          else props arr key
      | _ \<Rightarrow> props arr key)"

definition js_set :: "'a jsarray \<Rightarrow> jsnum \<Rightarrow> 'a option \<Rightarrow> 'a jsarray" where
  "js_set arr key v =
     (case key of
        Finite k \<Rightarrow>
          if 0 \<le> k then
            (if k < int (length (elems arr)) then arr\<lparr>elems := (elems arr)[nat k := v]\<rparr>
             else arr\<lparr>elems := elems arr @ replicate (nat k - length (elems arr)) None @ [v]\<rparr>)
          else arr\<lparr>props := (props arr)(key := v)\<rparr>
      | _ \<Rightarrow> arr\<lparr>props := (props arr)(key := v)\<rparr>)"

text \<open>
  The Fisher-Yates loop of \<open>shuffle\<close> and \<open>shuffleWithSeed\<close>:
  \<open>for (i = n - 1; i > 0; i--) { j = Math.floor(random() * (i + 1));
  [result[i], result[j]] = [result[j], result[i]] }\<close>, where \<open>random k\<close> is the value of
  the \<open>k\<close>-th call of the random function.  The right-hand side reads \<open>result[j]\<close> and
  \<open>result[i]\<close> before the two writes.
\<close>

fun shuffle_loop :: "(nat \<Rightarrow> rand_value) \<Rightarrow> nat \<Rightarrow> nat \<Rightarrow> 'a jsarray \<Rightarrow> 'a jsarray" where
  "shuffle_loop random k 0 result = result"
| "shuffle_loop random k (Suc i) result =
     (let j = floor_times (random k) (Suc i + 1);
          vj = js_get result j;
          vi = js_get result (Finite (int (Suc i)));
          result = js_set result (Finite (int (Suc i))) vj;
          result = js_set result j vi
      in shuffle_loop random (Suc k) i result)"

definition shuffle_with :: "(nat \<Rightarrow> rand_value) \<Rightarrow> 'a list \<Rightarrow> 'a jsarray" where
  "shuffle_with random array =
     shuffle_loop random 0 (length array - 1) \<lparr>elems = map Some array, props = (\<lambda>key. None)\<rparr>"

definition shuffle :: "(nat \<Rightarrow> nat) \<Rightarrow> 'a list \<Rightarrow> 'a jsarray" where
  "shuffle rnd array = shuffle_with (mathRandom rnd) array"

definition shuffleWithSeed :: "'a list \<Rightarrow> jsnum \<Rightarrow> 'a jsarray" where
  "shuffleWithSeed array seed = shuffle_with (seededRandom seed) array"

text \<open>\<open>seed !== undefined ? shuffleWithSeed(deck, seed) : shuffle(deck)\<close>\<close>

definition createShuffledDeck :: "jsnum option \<Rightarrow> (nat \<Rightarrow> nat) \<Rightarrow> Card jsarray" where
  "createShuffledDeck seed rnd =
     (case seed of Some sd \<Rightarrow> shuffleWithSeed createDeck sd | None \<Rightarrow> shuffle rnd createDeck)"

definition flipCard :: "Card \<Rightarrow> bool \<Rightarrow> Card" where
  "flipCard crd up = (if faceUp crd = up then crd else crd\<lparr>faceUp := up\<rparr>)"

definition isSameCard :: "Card \<Rightarrow> Card \<Rightarrow> bool" where
  "isSameCard a b = (card_id a = card_id b)"

section \<open>Rules engine (rules.ts)\<close>

definition canPlaceOnFoundation :: "Card \<Rightarrow> Pile \<Rightarrow> bool" where
  "canPlaceOnFoundation crd foundation =
     (case js_last (cards foundation) of
        None \<Rightarrow> rank crd = 1
      | Some topCard \<Rightarrow> suit crd = suit topCard \<and> rank crd = rank topCard + 1)"

definition canPlaceOnTableau :: "Card \<Rightarrow> Pile \<Rightarrow> bool" where
  "canPlaceOnTableau crd tab =
     (case js_last (cards tab) of
        None \<Rightarrow> rank crd = 13
      | Some topCard \<Rightarrow>
          if \<not> faceUp topCard then False
          else getCardColour crd \<noteq> getCardColour topCard \<and> rank crd = rank topCard - 1)"

definition getPile :: "GameState \<Rightarrow> CardLocation \<Rightarrow> Pile option" where
  "getPile state location =
     (case pileType location of
        Stock \<Rightarrow> Some (stock state)
      | Waste \<Rightarrow> Some (waste state)
      | Foundation \<Rightarrow> js_nth (foundations state) (pileIndex location)
      | Tableau \<Rightarrow> js_nth (tableau state) (pileIndex location))"

definition getCardAt :: "GameState \<Rightarrow> CardLocation \<Rightarrow> Card option" where
  "getCardAt state location =
     (case getPile state location of
        None \<Rightarrow> None
      | Some pile \<Rightarrow> js_nth (cards pile) (cardIndex location))"

text \<open>
  The loop of \<open>canPickUpCards\<close>: \<open>for (i = fromIndex; i < cards.length; i++)
  if (!cards[i].faceUp) return false\<close>.  Reading \<open>.faceUp\<close> of a missing element raises.
\<close>

function faceUp_from :: "Card list \<Rightarrow> int \<Rightarrow> exn + bool" where
  "faceUp_from cs i =
     (if i < int (length cs) then
        (case js_nth cs i of
           None \<Rightarrow> Inl TypeError
         | Some c \<Rightarrow> if \<not> faceUp c then Inr False else faceUp_from cs (i + 1))
      else Inr True)"
  by pat_completeness auto
termination
  by (relation "measure (\<lambda>(cs, i). nat (int (length cs) - i))") auto

declare faceUp_from.simps [simp del]

definition canPickUpCards :: "Pile \<Rightarrow> int \<Rightarrow> exn + bool" where
  "canPickUpCards pile fromIndex =
     (if ptype pile = Stock then Inr False
      else if ptype pile = Waste then Inr (fromIndex = int (length (cards pile)) - 1)
      else if ptype pile = Foundation then Inr (fromIndex = int (length (cards pile)) - 1)
      else faceUp_from (cards pile) fromIndex)"

definition isValidMove :: "GameState \<Rightarrow> CardLocation \<Rightarrow> CardLocation \<Rightarrow> int \<Rightarrow> exn + bool" where
  "isValidMove state from to n =
     (case getPile state from of
        None \<Rightarrow> Inr False
      | Some sourcePile \<Rightarrow>
     (case getPile state to of
        None \<Rightarrow> Inr False
      | Some destPile \<Rightarrow>
     (case canPickUpCards sourcePile (cardIndex from) of
        Inl e \<Rightarrow> Inl e
      | Inr pick \<Rightarrow>
          if \<not> pick then Inr False
          else if n > int (length (cards sourcePile)) - cardIndex from then Inr False
          else
            (case js_nth (cards sourcePile) (cardIndex from) of
               None \<Rightarrow> Inr False
             | Some movingCard \<Rightarrow>
                 if ptype destPile = Stock \<or> ptype destPile = Waste then Inr False
                 else if ptype destPile = Foundation then
                   (if n \<noteq> 1 then Inr False
                    else Inr (canPlaceOnFoundation movingCard destPile))
                 else if ptype destPile = Tableau then
                   Inr (canPlaceOnTableau movingCard destPile)
                 else Inr False))))"

definition checkWinCondition :: "GameState \<Rightarrow> bool" where
  "checkWinCondition state =
     (fold (\<lambda>foundation sum. sum + int (length (cards foundation))) (foundations state) 0 = 52)"

section \<open>Scoring policy (scoring.ts)\<close>

definition calculateStandardScore :: "Move \<Rightarrow> GameState \<Rightarrow> int" where
  "calculateStandardScore move state =
     (let f = pileType (move_from move); t = pileType (move_to move);
          s1 = (if f = Waste \<and> t = Tableau then 0 + 5 else 0);
          s2 = (if f = Waste \<and> t = Foundation then s1 + 10 else s1);
          s3 = (if f = Tableau \<and> t = Foundation then s2 + 10 else s2);
          s4 = (if f = Foundation \<and> t = Tableau then s3 + (- 15) else s3);
          s5 = (if flippedCard move then s4 + 5 else s4)
      in s5)"

definition calculateVegasScore :: "Move \<Rightarrow> GameState \<Rightarrow> int" where
  "calculateVegasScore move state =
     (let f = pileType (move_from move); t = pileType (move_to move);
          s1 = (if t = Foundation then 0 + 5 else 0);
          s2 = (if f = Foundation \<and> t = Tableau then s1 + (- 5) else s1)
      in s2)"

definition calculateMoveScore :: "Move \<Rightarrow> GameState \<Rightarrow> int" where
  "calculateMoveScore move state =
     (case scoringMode (config state) of
        Standard \<Rightarrow> calculateStandardScore move state
      | Vegas \<Rightarrow> calculateVegasScore move state
      | NoScoring \<Rightarrow> 0)"

definition getInitialScore :: "ScoringMode \<Rightarrow> int" where
  "getInitialScore m = (case m of Vegas \<Rightarrow> - 52 | Standard \<Rightarrow> 0 | NoScoring \<Rightarrow> 0)"

definition getRecycleWastePenalty :: "GameState \<Rightarrow> int" where
  "getRecycleWastePenalty state =
     (if scoringMode (config state) \<noteq> Standard then 0
      else if drawMode (config state) \<noteq> DrawThree then 0
      else - 20)"

text \<open>
  \<open>calculateTimeBonus\<close> on whole seconds.  Past the guard the argument exceeds 30, so
  \<open>Math.floor(700000 / elapsedSeconds)\<close> is the integer quotient.
\<close>

definition calculateTimeBonus :: "int \<Rightarrow> int" where
  "calculateTimeBonus elapsedSeconds =
     (if elapsedSeconds \<le> 30 then 0
      else let bonus = 700000 div elapsedSeconds in max 0 (min bonus 700000))"

section \<open>Game state engine (game.ts)\<close>

definition DEFAULT_CONFIG :: GameConfig where
  "DEFAULT_CONFIG =
     \<lparr>drawMode = DrawOne, scoringMode = Standard, unlimitedPasses = True, autoFlipTableau = False\<rparr>"

fun pileType_name :: "PileType \<Rightarrow> string" where
  "pileType_name Stock = ''stock''"
| "pileType_name Waste = ''waste''"
| "pileType_name Foundation = ''foundation''"
| "pileType_name Tableau = ''tableau''"

definition createPile :: "PileType \<Rightarrow> int \<Rightarrow> Pile" where
  "createPile t index =
     \<lparr>pile_id = (if t = Tableau \<or> t = Foundation then pileType_name t @ ''-'' @ int_str index
                 else pileType_name t),
      ptype = t,
      cards = [],
      tableauIndex = (if t = Tableau then Some index else None),
      foundationSuit = None\<rparr>"

definition push_card :: "Pile \<Rightarrow> Card \<Rightarrow> Pile" where
  "push_card p c = p\<lparr>cards := cards p @ [c]\<rparr>"

text \<open>
  The deal: \<open>for col in 0..6, for row in col..6: tableau[row].push(flipCard(deck[k++],
  row === col))\<close>.  \<open>deal_order\<close> lists the pairs (row, face-up) in the order the two
  loops visit them; \<open>deal_loop\<close> runs the body, raising where \<open>deck[k]\<close> is missing.
\<close>

definition deal_order :: "(nat \<times> bool) list" where
  "deal_order = concat (map (\<lambda>col. map (\<lambda>row. (row, row = col)) [col..<7]) [0..<7])"

fun deal_loop :: "(nat \<times> bool) list \<Rightarrow> Card jsarray \<Rightarrow> nat \<Rightarrow> Pile list \<Rightarrow> exn + (Pile list \<times> nat)" where
  "deal_loop [] deck k tab = Inr (tab, k)"
| "deal_loop ((row, up) # rest) deck k tab =
     (case js_get deck (Finite (int k)) of
        None \<Rightarrow> Inl TypeError
      | Some c \<Rightarrow> deal_loop rest deck (Suc k) (tab[row := push_card (tab ! row) (flipCard c up)]))"

text \<open>
  The rest of the deck goes to the stock unread: \<open>while (k < deck.length)
  stock.cards.push(deck[k++])\<close>.  Where the deck holds \<open>undefined\<close> there, so does
  \<open>stock.cards\<close> of the object that \<open>createInitialState\<close> returns, and that object is no
  \<open>GameState\<close>.  The model returns the entries of \<open>stock.cards\<close> as they are, next to the
  returned object with its \<open>stock.cards\<close> left empty; \<open>as_GameState\<close> is the returned
  object as a \<open>GameState\<close> when every entry is a card.  The configuration is the one
  merged with \<open>DEFAULT_CONFIG\<close>.
\<close>

definition createInitialState ::
    "GameConfig \<Rightarrow> jsnum option \<Rightarrow> (nat \<Rightarrow> nat) \<Rightarrow> exn + (Card option list \<times> GameState)" where
  "createInitialState fullConfig seed rnd =
     (let deck = createShuffledDeck seed rnd;
          stock0 = createPile Stock 0;
          waste0 = createPile Waste 0;
          foundations0 = map (\<lambda>i. createPile Foundation i) [0, 1, 2, 3];
          tableau0 = map (\<lambda>i. createPile Tableau i) [0, 1, 2, 3, 4, 5, 6]
      in case deal_loop deal_order deck 0 tableau0 of
           Inl e \<Rightarrow> Inl e
         | Inr (tableau1, k) \<Rightarrow>
             Inr (drop k (elems deck),
                  \<lparr>stock = stock0,
                   waste = waste0,
                   foundations = foundations0,
                   tableau = tableau1,
                   score = getInitialScore (scoringMode fullConfig),
                   moves = 0,
                   startTime = None,
                   endTime = None,
                   isWon = False,
                   stockPasses = 0,
                   config = fullConfig\<rparr>))"

definition as_GameState :: "Card option list \<times> GameState \<Rightarrow> GameState option" where
  "as_GameState d =
     (if list_all (\<lambda>c. c \<noteq> None) (fst d)
      then Some ((snd d)\<lparr>stock := (stock (snd d))\<lparr>cards := map the (fst d)\<rparr>\<rparr>)
      else None)"

text \<open>\<open>cloneState\<close> copies every pile and card; on values a copy is the value itself.\<close>

definition cloneState :: "GameState \<Rightarrow> GameState" where
  "cloneState state = state"

definition start_timer :: "int \<Rightarrow> GameState \<Rightarrow> GameState" where
  "start_timer now state = (if startTime state = None then state\<lparr>startTime := Some now\<rparr> else state)"

text \<open>
  \<open>for (i = 0; i < cardsToMove; i++) waste.push(flipCard(stock.pop(), true))\<close>, on the
  pair (stock, waste); \<open>cardsToMove\<close> never exceeds the size of the stock.
\<close>

fun draw_loop :: "nat \<Rightarrow> Card list \<Rightarrow> Card list \<Rightarrow> Card list \<times> Card list" where
  "draw_loop 0 st wa = (st, wa)"
| "draw_loop (Suc m) st wa = draw_loop m (butlast st) (wa @ [flipCard (last st) True])"

definition drawFromStock :: "int \<Rightarrow> GameState \<Rightarrow> GameState" where
  "drawFromStock now state =
     (if length (cards (stock state)) = 0 then state
      else
        let newState = cloneState state;
            drawCount = (if drawMode (config state) = DrawThree then 3 else 1);
            cardsToMove = min drawCount (length (cards (stock newState)));
            (st, wa) = draw_loop cardsToMove (cards (stock newState)) (cards (waste newState));
            newState = newState\<lparr>stock := (stock newState)\<lparr>cards := st\<rparr>,
                                 waste := (waste newState)\<lparr>cards := wa\<rparr>\<rparr>;
            newState = start_timer now newState
        in newState\<lparr>moves := moves newState + 1\<rparr>)"

text \<open>\<open>while (waste.length > 0) stock.push(flipCard(waste.pop(), false))\<close>, on (waste, stock).\<close>

function reset_loop :: "Card list \<Rightarrow> Card list \<Rightarrow> Card list \<times> Card list" where
  "reset_loop wa st =
     (if length wa > 0 then reset_loop (butlast wa) (st @ [flipCard (last wa) False])
      else (wa, st))"
  by pat_completeness auto
termination
  by (relation "measure (\<lambda>(wa, st). length wa)") auto

declare reset_loop.simps [simp del]

definition resetStock :: "GameState \<Rightarrow> GameState" where
  "resetStock state =
     (if length (cards (waste state)) = 0 then state
      else if scoringMode (config state) = Vegas \<and> \<not> unlimitedPasses (config state)
              \<and> stockPasses state \<ge> 3 then state
      else
        let newState = cloneState state;
            (wa, st) = reset_loop (cards (waste newState)) (cards (stock newState));
            newState = newState\<lparr>stock := (stock newState)\<lparr>cards := st\<rparr>,
                                 waste := (waste newState)\<lparr>cards := wa\<rparr>\<rparr>;
            newState = newState\<lparr>stockPasses := stockPasses newState + 1\<rparr>;
            newState = newState\<lparr>moves := moves newState + 1\<rparr>;
            penalty = getRecycleWastePenalty newState
        in newState\<lparr>score := max 0 (score newState + penalty)\<rparr>)"

text \<open>
  Piles are objects that \<open>executeMove\<close> mutates through references obtained from
  \<open>getPile\<close>.  After \<open>cloneState\<close> every slot of the state holds an object of its own, so
  two references alias exactly when they address the same slot.  The model keeps the
  piles in the state and writes a pile back to its slot with \<open>putPile\<close>; a later read
  through \<open>getPile\<close> sees the write, as a read through an aliased reference does.
\<close>

definition putPile :: "GameState \<Rightarrow> CardLocation \<Rightarrow> Pile \<Rightarrow> GameState" where
  "putPile state location p =
     (case pileType location of
        Stock \<Rightarrow> state\<lparr>stock := p\<rparr>
      | Waste \<Rightarrow> state\<lparr>waste := p\<rparr>
      | Foundation \<Rightarrow> state\<lparr>foundations := (foundations state)[nat (pileIndex location) := p]\<rparr>
      | Tableau \<Rightarrow> state\<lparr>tableau := (tableau state)[nat (pileIndex location) := p]\<rparr>)"

definition failure :: "string \<Rightarrow> MoveResult" where
  "failure err = \<lparr>success = False, result_state = None, result_error = Some err, result_move = None\<rparr>"

text \<open>
  The part of \<open>executeMove\<close> after the validation, on the cloned state, in the three
  steps of the source: the splice out of the source pile and the push onto the
  destination; the flip of the newly exposed top card of a tableau source; the timer,
  the \<open>Move\<close> record, the score, the move counter and the win check.  The non-null
  assertion \<open>getPile(...)!\<close> raises at the first use of a missing pile.
\<close>

definition transfer_cards :: "GameState \<Rightarrow> CardLocation \<Rightarrow> CardLocation \<Rightarrow> int \<Rightarrow> exn + GameState" where
  "transfer_cards newState from to n =
     (case getPile newState from of
        None \<Rightarrow> Inl TypeError
      | Some sourcePile \<Rightarrow>
     (case getPile newState to of
        None \<Rightarrow> Inl TypeError
      | Some _ \<Rightarrow>
     (let (movedCards, remaining) = js_splice (cards sourcePile) (cardIndex from) n;
          s1 = putPile newState from (sourcePile\<lparr>cards := remaining\<rparr>)
      in (case getPile s1 to of
            None \<Rightarrow> Inl TypeError
          | Some destPile \<Rightarrow> Inr (putPile s1 to (destPile\<lparr>cards := cards destPile @ movedCards\<rparr>))))))"

definition flip_exposed :: "GameState \<Rightarrow> CardLocation \<Rightarrow> exn + (GameState \<times> bool)" where
  "flip_exposed newState from =
     (case getPile newState from of
        None \<Rightarrow> Inl TypeError
      | Some sourcePile \<Rightarrow>
          if ptype sourcePile = Tableau \<and> length (cards sourcePile) > 0
               \<and> autoFlipTableau (config newState) \<and> \<not> faceUp (last (cards sourcePile))
          then Inr (putPile newState from
                      (sourcePile\<lparr>cards := (cards sourcePile)
                          [length (cards sourcePile) - 1 := flipCard (last (cards sourcePile)) True]\<rparr>),
                    True)
          else Inr (newState, False))"

definition record_move :: "int \<Rightarrow> GameState \<Rightarrow> CardLocation \<Rightarrow> CardLocation \<Rightarrow> int \<Rightarrow> bool \<Rightarrow> MoveResult" where
  "record_move now newState from to n flipped =
     (let s4 = start_timer now newState;
          move0 = \<lparr>move_from = from, move_to = to, cardCount = n, flippedCard = flipped, scoreChange = 0\<rparr>;
          move = move0\<lparr>scoreChange := calculateMoveScore move0 s4\<rparr>;
          s5 = s4\<lparr>score := score s4 + scoreChange move\<rparr>;
          s6 = s5\<lparr>moves := moves s5 + 1\<rparr>;
          s7 = (if checkWinCondition s6 then s6\<lparr>isWon := True, endTime := Some now\<rparr> else s6)
      in \<lparr>success = True, result_state = Some s7, result_error = None, result_move = Some move\<rparr>)"

definition commit_move :: "int \<Rightarrow> GameState \<Rightarrow> CardLocation \<Rightarrow> CardLocation \<Rightarrow> int \<Rightarrow> exn + MoveResult" where
  "commit_move now newState from to n =
     (case transfer_cards newState from to n of
        Inl e \<Rightarrow> Inl e
      | Inr s2 \<Rightarrow>
          (case flip_exposed s2 from of
             Inl e \<Rightarrow> Inl e
           | Inr (s3, flipped) \<Rightarrow> Inr (record_move now s3 from to n flipped)))"

definition executeMove :: "int \<Rightarrow> GameState \<Rightarrow> CardLocation \<Rightarrow> CardLocation \<Rightarrow> int \<Rightarrow> exn + MoveResult" where
  "executeMove now state from to n =
     (case isValidMove state from to n of
        Inl e \<Rightarrow> Inl e
      | Inr valid \<Rightarrow>
          if \<not> valid then Inr (failure ''Invalid move'')
          else commit_move now (cloneState state) from to n)"

definition flipTableauCard :: "int \<Rightarrow> GameState \<Rightarrow> int \<Rightarrow> exn + MoveResult" where
  "flipTableauCard now state tableauIdx =
     (if tableauIdx < 0 \<or> tableauIdx \<ge> 7 then Inr (failure ''Invalid tableau index'')
      else case js_nth (tableau state) tableauIdx of
        None \<Rightarrow> Inl TypeError
      | Some tab \<Rightarrow>
          if length (cards tab) = 0 then Inr (failure ''Tableau is empty'')
          else
            let topCard = last (cards tab) in
            if faceUp topCard then Inr (failure ''Card is already face up'')
            else
              let newState = cloneState state;
                  newTableau = tableau newState ! nat tableauIdx;
                  newTableau = newTableau\<lparr>cards := (cards newTableau)[length (cards newTableau) - 1 := flipCard topCard True]\<rparr>;
                  newState = newState\<lparr>tableau := (tableau newState)[nat tableauIdx := newTableau]\<rparr>;
                  newState = start_timer now newState
              in Inr \<lparr>success = True, result_state = Some newState, result_error = None, result_move = None\<rparr>)"

text \<open>
  The loop over the foundations shared by \<open>canAutoMove\<close> and \<open>autoMoveToFoundation\<close>:
  the first index \<open>i\<close> of the list for which \<open>isValidMove(state, from, to_i, 1)\<close> holds.
\<close>

fun first_valid_foundation :: "GameState \<Rightarrow> CardLocation \<Rightarrow> int list \<Rightarrow> exn + CardLocation option" where
  "first_valid_foundation state from [] = Inr None"
| "first_valid_foundation state from (i # rest) =
     (case js_nth (foundations state) i of
        None \<Rightarrow> Inl TypeError
      | Some f \<Rightarrow>
          let to = \<lparr>pileType = Foundation, pileIndex = i, cardIndex = int (length (cards f))\<rparr>
          in (case isValidMove state from to 1 of
                Inl e \<Rightarrow> Inl e
              | Inr valid \<Rightarrow> if valid then Inr (Some to) else first_valid_foundation state from rest))"

text \<open>The loop over the tableau columns: the first empty one.\<close>

fun first_empty_tableau :: "GameState \<Rightarrow> int list \<Rightarrow> exn + CardLocation option" where
  "first_empty_tableau state [] = Inr None"
| "first_empty_tableau state (i # rest) =
     (case js_nth (tableau state) i of
        None \<Rightarrow> Inl TypeError
      | Some t \<Rightarrow>
          if length (cards t) = 0
          then Inr (Some \<lparr>pileType = Tableau, pileIndex = i, cardIndex = 0\<rparr>)
          else first_empty_tableau state rest)"

definition canAutoMove :: "GameState \<Rightarrow> CardLocation \<Rightarrow> exn + CardLocation option" where
  "canAutoMove state from =
     (case getPile state from of
        None \<Rightarrow> Inr None
      | Some sourcePile \<Rightarrow>
     (case js_nth (cards sourcePile) (cardIndex from) of
        None \<Rightarrow> Inr None
      | Some c \<Rightarrow>
          if \<not> faceUp c then Inr None
          else if cardIndex from = int (length (cards sourcePile)) - 1 then
            (case first_valid_foundation state from [0, 1, 2, 3] of
               Inl e \<Rightarrow> Inl e
             | Inr (Some to) \<Rightarrow> Inr (Some to)
             | Inr None \<Rightarrow>
                 if rank c = 13 then
                   (case first_empty_tableau state [0, 1, 2, 3, 4, 5, 6] of
                      Inl e \<Rightarrow> Inl e
                    | Inr (Some to) \<Rightarrow> Inr (Some to)
                    | Inr None \<Rightarrow> Inr None)
                 else Inr None)
          else if rank c = 13 then
            (case faceUp_from (cards sourcePile) (cardIndex from) of
               Inl e \<Rightarrow> Inl e
             | Inr allUp \<Rightarrow>
                 if \<not> allUp then Inr None
                 else
                   (case first_empty_tableau state [0, 1, 2, 3, 4, 5, 6] of
                      Inl e \<Rightarrow> Inl e
                    | Inr (Some to) \<Rightarrow> Inr (Some to)
                    | Inr None \<Rightarrow> Inr None))
          else Inr None))"

definition autoMoveToFoundation :: "int \<Rightarrow> GameState \<Rightarrow> CardLocation \<Rightarrow> exn + MoveResult" where
  "autoMoveToFoundation now state from =
     (case getPile state from of
        None \<Rightarrow> Inr (failure ''Invalid source pile'')
      | Some sourcePile \<Rightarrow>
          if cardIndex from \<noteq> int (length (cards sourcePile)) - 1 then
            (case js_nth (cards sourcePile) (cardIndex from) of
               None \<Rightarrow> Inr (failure ''Can only auto-move top card or Kings to empty columns'')
             | Some c \<Rightarrow>
                 if faceUp c \<and> rank c = 13 then
                   (case faceUp_from (cards sourcePile) (cardIndex from) of
                      Inl e \<Rightarrow> Inl e
                    | Inr canMoveStack \<Rightarrow>
                        if canMoveStack then
                          (case first_empty_tableau state [0, 1, 2, 3, 4, 5, 6] of
                             Inl e \<Rightarrow> Inl e
                           | Inr (Some to) \<Rightarrow>
                               executeMove now state from to
                                 (int (length (cards sourcePile)) - cardIndex from)
                           | Inr None \<Rightarrow>
                               Inr (failure ''Can only auto-move top card or Kings to empty columns''))
                        else Inr (failure ''Can only auto-move top card or Kings to empty columns''))
                 else Inr (failure ''Can only auto-move top card or Kings to empty columns''))
          else
            (case js_nth (cards sourcePile) (cardIndex from) of
               None \<Rightarrow> Inr (failure ''Card not available'')
             | Some c \<Rightarrow>
                 if \<not> faceUp c then Inr (failure ''Card not available'')
                 else
                   (case first_valid_foundation state from [0, 1, 2, 3] of
                      Inl e \<Rightarrow> Inl e
                    | Inr (Some to) \<Rightarrow> executeMove now state from to 1
                    | Inr None \<Rightarrow>
                        if rank c = 13 then
                          (case first_empty_tableau state [0, 1, 2, 3, 4, 5, 6] of
                             Inl e \<Rightarrow> Inl e
                           | Inr (Some to) \<Rightarrow> executeMove now state from to 1
                           | Inr None \<Rightarrow> Inr (failure ''No valid move for this card''))
                        else Inr (failure ''No valid move for this card''))))"

text \<open>\<open>findAutoCompleteMove\<close>: the inner loop over the foundations, then the outer one.\<close>

fun accepting_foundation :: "GameState \<Rightarrow> Card \<Rightarrow> int list \<Rightarrow> exn + CardLocation option" where
  "accepting_foundation state topCard [] = Inr None"
| "accepting_foundation state topCard (j # rest) =
     (case js_nth (foundations state) j of
        None \<Rightarrow> Inl TypeError
      | Some foundation \<Rightarrow>
          if canPlaceOnFoundation topCard foundation
          then Inr (Some \<lparr>pileType = Foundation, pileIndex = j, cardIndex = int (length (cards foundation))\<rparr>)
          else accepting_foundation state topCard rest)"

fun autoComplete_scan :: "GameState \<Rightarrow> int list \<Rightarrow> exn + (CardLocation \<times> CardLocation) option" where
  "autoComplete_scan state [] = Inr None"
| "autoComplete_scan state (i # rest) =
     (case js_nth (tableau state) i of
        None \<Rightarrow> Inl TypeError
      | Some tab \<Rightarrow>
          if length (cards tab) = 0 then autoComplete_scan state rest
          else
            let topCard = last (cards tab);
                from = \<lparr>pileType = Tableau, pileIndex = i, cardIndex = int (length (cards tab)) - 1\<rparr>
            in (case accepting_foundation state topCard [0, 1, 2, 3] of
                  Inl e \<Rightarrow> Inl e
                | Inr (Some to) \<Rightarrow> Inr (Some (from, to))
                | Inr None \<Rightarrow> autoComplete_scan state rest))"

definition findAutoCompleteMove :: "GameState \<Rightarrow> exn + (CardLocation \<times> CardLocation) option" where
  "findAutoCompleteMove state = autoComplete_scan state [0, 1, 2, 3, 4, 5, 6]"

definition autoCompleteStep :: "int \<Rightarrow> GameState \<Rightarrow> exn + GameState option" where
  "autoCompleteStep now state =
     (case findAutoCompleteMove state of
        Inl e \<Rightarrow> Inl e
      | Inr None \<Rightarrow> Inr None
      | Inr (Some (from, to)) \<Rightarrow>
          (case executeMove now state from to 1 of
             Inl e \<Rightarrow> Inl e
           | Inr result \<Rightarrow> Inr (if success result then result_state result else None)))"

definition getAllCards :: "GameState \<Rightarrow> Card list" where
  "getAllCards state =
     cards (stock state) @ cards (waste state)
       @ concat (map cards (foundations state)) @ concat (map cards (tableau state))"

section \<open>History manager (class GameHistory)\<close>

record GameHistory =
  history :: "HistoryEntry list"
  currentIndex :: int

definition maxHistory :: int where
  "maxHistory = 100"

definition newHistory :: GameHistory where
  "newHistory = \<lparr>history = [], currentIndex = - 1\<rparr>"

definition push :: "HistoryEntry \<Rightarrow> GameHistory \<Rightarrow> GameHistory" where
  "push entry h =
     (let hist = js_slice0 (history h) (currentIndex h + 1) @ [entry];
          idx = currentIndex h + 1
      in if int (length hist) > maxHistory
         then \<lparr>history = tl hist, currentIndex = idx - 1\<rparr>
         else \<lparr>history = hist, currentIndex = idx\<rparr>)"

definition canUndo :: "GameHistory \<Rightarrow> bool" where
  "canUndo h = (currentIndex h \<ge> 0)"

definition canRedo :: "GameHistory \<Rightarrow> bool" where
  "canRedo h = (currentIndex h < int (length (history h)) - 1)"

text \<open>Both return the value of the call and the object after it.\<close>

definition undo :: "GameHistory \<Rightarrow> exn + (GameState option \<times> GameHistory)" where
  "undo h =
     (if \<not> canUndo h then Inr (None, h)
      else case js_nth (history h) (currentIndex h) of
             None \<Rightarrow> Inl TypeError
           | Some entry \<Rightarrow> Inr (Some (previousState entry), h\<lparr>currentIndex := currentIndex h - 1\<rparr>))"

definition redo :: "GameHistory \<Rightarrow> HistoryEntry option \<times> GameHistory" where
  "redo h =
     (if \<not> canRedo h then (None, h)
      else let h' = h\<lparr>currentIndex := currentIndex h + 1\<rparr>
           in (js_nth (history h') (currentIndex h'), h'))"

definition clear :: "GameHistory \<Rightarrow> GameHistory" where
  "clear h = \<lparr>history = [], currentIndex = - 1\<rparr>"

definition size_history :: "GameHistory \<Rightarrow> int" where
  "size_history h = int (length (history h))"

section \<open>Example states\<close>

definition emptyState :: "GameConfig \<Rightarrow> GameState" where
  "emptyState cfg =
     \<lparr>stock = createPile Stock 0, waste = createPile Waste 0,
      foundations = map (\<lambda>i. createPile Foundation i) [0, 1, 2, 3],
      tableau = map (\<lambda>i. createPile Tableau i) [0, 1, 2, 3, 4, 5, 6],
      score = getInitialScore (scoringMode cfg), moves = 0, startTime = None, endTime = None,
      isWon = False, stockPasses = 0, config = cfg\<rparr>"

text \<open>A face-up King under a face-up five on the waste, every tableau column empty.\<close>

definition kingWasteState :: GameState where
  "kingWasteState =
     (emptyState DEFAULT_CONFIG)
       \<lparr>waste := (createPile Waste 0)\<lparr>cards := [createCard Spades 13 True, createCard Hearts 5 True]\<rparr>\<rparr>"

text \<open>The same two cards with the King on top.\<close>

definition wasteKingTopState :: GameState where
  "wasteKingTopState =
     (emptyState DEFAULT_CONFIG)
       \<lparr>waste := (createPile Waste 0)\<lparr>cards := [createCard Hearts 5 True, createCard Spades 13 True]\<rparr>\<rparr>"

text \<open>A clock that always reads the same time.\<close>

definition fixedClock :: "nat \<Rightarrow> int" where
  "fixedClock k = 1000"

definition vegasLimitedConfig :: GameConfig where
  "vegasLimitedConfig =
     \<lparr>drawMode = DrawOne, scoringMode = Vegas, unlimitedPasses = False, autoFlipTableau = False\<rparr>"

text \<open>Vegas with limited passes, three passes used, two cards in the stock, empty waste.\<close>

definition vegasExhaustedState :: GameState where
  "vegasExhaustedState =
     (emptyState vegasLimitedConfig)
       \<lparr>stock := (createPile Stock 0)\<lparr>cards := [createCard Hearts 1 False, createCard Clubs 7 False]\<rparr>,
        stockPasses := 3\<rparr>"

text \<open>Standard draw-three with four cards in the stock and an empty waste.\<close>

definition drawThreeState :: GameState where
  "drawThreeState =
     (emptyState (DEFAULT_CONFIG\<lparr>drawMode := DrawThree\<rparr>))
       \<lparr>stock := (createPile Stock 0)\<lparr>cards := [createCard Hearts 1 False, createCard Clubs 7 False,
            createCard Spades 12 False, createCard Diamonds 3 False]\<rparr>\<rparr>"

text \<open>\<open>Math.random\<close> returning 0 at every call, and a vegas configuration.\<close>

definition firstPick :: "nat \<Rightarrow> nat" where
  "firstPick k = 0"

definition vegasConfig :: GameConfig where
  "vegasConfig = DEFAULT_CONFIG\<lparr>scoringMode := Vegas\<rparr>"

text \<open>One face-down card in the first tableau column.\<close>

definition faceDownState :: GameState where
  "faceDownState =
     (emptyState DEFAULT_CONFIG)
       \<lparr>tableau := (tableau (emptyState DEFAULT_CONFIG))
            [0 := (createPile Tableau 0)\<lparr>cards := [createCard Hearts 9 False]\<rparr>]\<rparr>"

text \<open>Two history entries with different snapshots.\<close>

definition moveA :: Move where
  "moveA = \<lparr>move_from = \<lparr>pileType = Waste, pileIndex = 0, cardIndex = 1\<rparr>,
             move_to = \<lparr>pileType = Tableau, pileIndex = 0, cardIndex = 0\<rparr>,
             cardCount = 1, flippedCard = False, scoreChange = 5\<rparr>"

definition entryA :: HistoryEntry where
  "entryA = \<lparr>entry_move = moveA, previousState = wasteKingTopState\<rparr>"

definition entryB :: HistoryEntry where
  "entryB = \<lparr>entry_move = moveA, previousState = kingWasteState\<rparr>"

section \<open>Scenarios\<close>

text \<open>
  Drawing until the stock is empty, as the tests do before they call \<open>resetStock\<close>.
  The \<open>k\<close>-th call of \<open>drawFromStock\<close> reads the clock value \<open>clock k\<close>.
\<close>

function drawAll :: "(nat \<Rightarrow> int) \<Rightarrow> GameState \<Rightarrow> GameState" where
  "drawAll clock state =
     (if length (cards (stock state)) = 0 then state
      else drawAll (\<lambda>k. clock (Suc k)) (drawFromStock (clock 0) state))"
  by pat_completeness auto
termination
proof (relation "measure (\<lambda>(clock, state). length (cards (stock state)))")
  show "wf (measure (\<lambda>(clock, state). length (cards (stock state))))" by simp
next
  fix clock :: "nat \<Rightarrow> int" and state :: GameState
  assume ne: "length (cards (stock state)) \<noteq> 0"
  have len: "length (fst (draw_loop m st wa)) = length st - m" for m st wa
    by (induction m arbitrary: st wa) simp_all
  define m where "m = min (if drawMode (config state) = DrawThree then 3 else 1) (length (cards (stock state)))"
  have "0 < m" using ne by (simp add: m_def)
  moreover have "length (cards (stock (drawFromStock (clock 0) state))) = length (cards (stock state)) - m"
    using ne by (simp add: drawFromStock_def cloneState_def start_timer_def m_def Let_def case_prod_beta len)
  ultimately show "((\<lambda>k. clock (Suc k), drawFromStock (clock 0) state), (clock, state))
        \<in> measure (\<lambda>(clock, state). length (cards (stock state)))"
    using ne by simp
qed

declare drawAll.simps [simp del]

text \<open>
  The random sources under which the shuffle is a permutation: \<open>Math.random\<close> returning
  doubles in [0, 1) when the seed is omitted, or a seed that is a non-negative integer
  below \<open>2 ^ 990\<close> (so that the first product of the generator does not overflow).
\<close>

definition admissible_source :: "jsnum option \<Rightarrow> (nat \<Rightarrow> nat) \<Rightarrow> bool" where
  "admissible_source seed rnd =
     (case seed of
        None \<Rightarrow> (\<forall>k. rnd k < 2 ^ 1074 \<and> round53 (rnd k) = rnd k)
      | Some sd \<Rightarrow> (\<exists>z. sd = Finite z \<and> 0 \<le> z \<and> z < 2 ^ 990))"

text \<open>
  The states reachable from \<open>createInitialState\<close> by the state transitions of the engine;
  a transition that fails or raises yields no state.
\<close>

inductive reachable :: "GameConfig \<Rightarrow> jsnum option \<Rightarrow> (nat \<Rightarrow> nat) \<Rightarrow> GameState \<Rightarrow> bool"
  for cfg :: GameConfig and seed :: "jsnum option" and rnd :: "nat \<Rightarrow> nat" where
  reach_init: "createInitialState cfg seed rnd = Inr d \<Longrightarrow> as_GameState d = Some s
     \<Longrightarrow> reachable cfg seed rnd s"
| reach_draw: "reachable cfg seed rnd s \<Longrightarrow> reachable cfg seed rnd (drawFromStock now s)"
| reach_reset: "reachable cfg seed rnd s \<Longrightarrow> reachable cfg seed rnd (resetStock s)"
| reach_move: "reachable cfg seed rnd s \<Longrightarrow> executeMove now s from to n = Inr r
     \<Longrightarrow> result_state r = Some s' \<Longrightarrow> reachable cfg seed rnd s'"
| reach_flip: "reachable cfg seed rnd s \<Longrightarrow> flipTableauCard now s i = Inr r
     \<Longrightarrow> result_state r = Some s' \<Longrightarrow> reachable cfg seed rnd s'"
| reach_auto: "reachable cfg seed rnd s \<Longrightarrow> autoMoveToFoundation now s from = Inr r
     \<Longrightarrow> result_state r = Some s' \<Longrightarrow> reachable cfg seed rnd s'"
| reach_step: "reachable cfg seed rnd s \<Longrightarrow> autoCompleteStep now s = Inr (Some s')
     \<Longrightarrow> reachable cfg seed rnd s'"




text \<open>Sequences of calls on a \<open>GameHistory\<close> object, starting from a new one.\<close>

datatype history_op = Push HistoryEntry | Undo | Redo | Clear

fun apply_op :: "history_op \<Rightarrow> GameHistory \<Rightarrow> exn + GameHistory" where
  "apply_op (Push entry) h = Inr (push entry h)"
| "apply_op Undo h = (case undo h of Inl e \<Rightarrow> Inl e | Inr (v, h') \<Rightarrow> Inr h')"
| "apply_op Redo h = Inr (snd (redo h))"
| "apply_op Clear h = Inr (clear h)"

fun run_ops :: "history_op list \<Rightarrow> GameHistory \<Rightarrow> exn + GameHistory" where
  "run_ops [] h = Inr h"
| "run_ops (x # xs) h = (case apply_op x h of Inl e \<Rightarrow> Inl e | Inr h' \<Rightarrow> run_ops xs h')"

text \<open>The number of cards that one call of \<open>drawFromStock\<close> moves.\<close>

definition drawCount_of :: "GameState \<Rightarrow> nat" where
  "drawCount_of state =
     min (if drawMode (config state) = DrawThree then 3 else 1) (length (cards (stock state)))"

text \<open>The identities of a sequence of cards, and of all the cards of a state, as multisets.\<close>

definition cardIds :: "Card list \<Rightarrow> string multiset" where
  "cardIds cs = mset (map card_id cs)"

definition allIds :: "GameState \<Rightarrow> string multiset" where
  "allIds state = cardIds (getAllCards state)"

text \<open>The cursor of a history stays within the list, and the list within the capacity.\<close>

definition hist_inv :: "GameHistory \<Rightarrow> bool" where
  "hist_inv h = (- 1 \<le> currentIndex h \<and> currentIndex h < int (length (history h))
                 \<and> int (length (history h)) \<le> maxHistory)"

section \<open>Verification\<close>

lemmas example_defs = kingWasteState_def wasteKingTopState_def emptyState_def DEFAULT_CONFIG_def
  createPile_def createCard_def createCardId_def int_str_def getInitialScore_def

lemmas engine_defs = executeMove_def commit_move_def transfer_cards_def flip_exposed_def
  record_move_def isValidMove_def canPickUpCards_def getPile_def
  putPile_def js_nth_def js_splice_def js_last_def canPlaceOnTableau_def canPlaceOnFoundation_def
  cloneState_def start_timer_def calculateMoveScore_def calculateStandardScore_def
  calculateVegasScore_def checkWinCondition_def failure_def

subsection \<open>The pickup loop\<close>

lemma faceUp_from_nonneg:
  "0 \<le> i \<Longrightarrow> faceUp_from cs i = Inr (list_all faceUp (drop (nat i) cs))"
proof (induction cs i rule: faceUp_from.induct)
  case (1 cs i)
  show ?case
  proof (cases "i < int (length cs)")
    case True
    with 1 have nth: "js_nth cs i = Some (cs ! nat i)" by (simp add: js_nth_def)
    from True 1(2) have d: "drop (nat i) cs = cs ! nat i # drop (nat (i + 1)) cs"
      by (simp add: Cons_nth_drop_Suc nat_add_distrib)
    show ?thesis
    proof (cases "faceUp (cs ! nat i)")
      case True
      with 1 \<open>i < int (length cs)\<close> nth d show ?thesis
        by (subst faceUp_from.simps) simp
    next
      case False
      with \<open>i < int (length cs)\<close> nth d show ?thesis
        by (subst faceUp_from.simps) simp
    qed
  next
    case False
    then show ?thesis by (subst faceUp_from.simps) simp
  qed
qed

lemma faceUp_from_neg: "i < 0 \<Longrightarrow> faceUp_from cs i = Inl TypeError"
  by (subst faceUp_from.simps) (simp add: js_nth_def)

lemma isValidMove_nonneg: "0 \<le> cardIndex from \<Longrightarrow> \<exists>b. isValidMove state from to n = Inr b"
  by (auto simp: isValidMove_def canPickUpCards_def faceUp_from_nonneg split: option.splits)

subsection \<open>Time bonus\<close>

text \<open>
  C4, as stated: the bonus is 0 under 30 seconds and otherwise \<open>floor(700000 / s)\<close>
  capped at 700000, so that exactly 30 seconds give 23333.  The guard of the code is
  \<open>elapsedSeconds <= 30\<close>: at 30 seconds the bonus is 0.
\<close>

theorem calculateTimeBonus_at_30: "calculateTimeBonus 30 \<noteq> 23333"
  by (simp add: calculateTimeBonus_def)

text \<open>
  C4, amended: for every non-negative whole number of seconds the bonus is 0 up to and
  including 30 seconds, and \<open>floor(700000 / s)\<close> capped at 700000 beyond.
\<close>

theorem calculateTimeBonus_amended:
  assumes "0 \<le> e"
  shows "calculateTimeBonus e = (if e \<le> 30 then 0 else min (700000 div e) 700000)"
  using assms by (auto simp: calculateTimeBonus_def Let_def pos_imp_zdiv_nonneg_iff)

theorem calculateTimeBonus_amended_witness:
  "(0::int) \<le> 31 \<and> calculateTimeBonus 31 = 22580 \<and> calculateTimeBonus 30 = 0"
  using calculateTimeBonus_amended[of 31] calculateTimeBonus_amended[of 30] by simp

subsection \<open>Move legality\<close>

text \<open>
  C5 says that \<open>isValidMove\<close> rejects every move to the stock or the waste and every
  move of more than one card to a foundation.  With a tableau source and
  \<open>from.cardIndex = -1\<close> the loop of \<open>canPickUpCards\<close> reads \<open>cards[-1].faceUp\<close> before
  the destination is looked at, and the call raises a TypeError: no \<open>false\<close> is returned.
\<close>

theorem isValidMove_negative_index_raises:
  "isValidMove (emptyState DEFAULT_CONFIG) \<lparr>pileType = Tableau, pileIndex = 0, cardIndex = - 1\<rparr>
        \<lparr>pileType = Stock, pileIndex = 0, cardIndex = 0\<rparr> 1 = Inl TypeError
   \<and> isValidMove (emptyState DEFAULT_CONFIG) \<lparr>pileType = Tableau, pileIndex = 0, cardIndex = - 1\<rparr>
        \<lparr>pileType = Waste, pileIndex = 0, cardIndex = 0\<rparr> 1 = Inl TypeError
   \<and> isValidMove (emptyState DEFAULT_CONFIG) \<lparr>pileType = Tableau, pileIndex = 0, cardIndex = - 1\<rparr>
        \<lparr>pileType = Foundation, pileIndex = 0, cardIndex = 0\<rparr> 2 = Inl TypeError"
  by (simp add: example_defs engine_defs faceUp_from_neg)

text \<open>
  Apart from that exception the destination rules hold: \<open>isValidMove\<close> never returns
  \<open>true\<close> for a move whose destination pile is the stock or the waste, a move of more
  than one card to a foundation, a card other than an Ace on an empty foundation, a card
  other than a King on an empty tableau column, or a card on a tableau column whose top
  card has its colour or is not exactly one rank higher, the moved card being the one at
  \<open>from.cardIndex\<close>; and it returns \<open>false\<close> whenever \<open>from.cardIndex\<close> is not negative.
\<close>

lemma isValidMove_destination_rules:
  assumes dst: "getPile state to = Some destPile"
    and bad: "ptype destPile = Stock \<or> ptype destPile = Waste
      \<or> (ptype destPile = Foundation \<and> n > 1)
      \<or> (\<exists>c. getCardAt state from = Some c \<and>
            ((ptype destPile = Foundation \<and> cards destPile = [] \<and> rank c \<noteq> 1)
           \<or> (ptype destPile = Tableau \<and> cards destPile = [] \<and> rank c \<noteq> 13)
           \<or> (ptype destPile = Tableau \<and> cards destPile \<noteq> []
                \<and> (getCardColour (last (cards destPile)) = getCardColour c
                     \<or> rank (last (cards destPile)) \<noteq> rank c + 1))))"
  shows "isValidMove state from to n \<noteq> Inr True
       \<and> (0 \<le> cardIndex from \<longrightarrow> isValidMove state from to n = Inr False)"
proof -
  have no: "isValidMove state from to n \<noteq> Inr True"
    using dst bad
    by (auto simp: isValidMove_def getCardAt_def canPlaceOnFoundation_def canPlaceOnTableau_def
        js_last_def split: option.splits sum.splits if_splits)
  moreover have "isValidMove state from to n = Inr False" if "0 \<le> cardIndex from"
    using isValidMove_nonneg[OF that, of state to n] no by (cases "isValidMove state from to n") auto
  ultimately show ?thesis by blast
qed

text \<open>
  C10: \<open>isValidMove\<close> does not ask for \<open>cardCount >= 1\<close>.  With a King on top of the
  waste and an empty first column, the move of zero cards from the waste to that column
  is valid; \<open>executeMove\<close> succeeds, leaves every pile as it was, adds one to \<open>moves\<close>
  and adds the 5 points of a waste-to-tableau move in standard mode.
\<close>

theorem zero_card_move:
  "isValidMove wasteKingTopState \<lparr>pileType = Waste, pileIndex = 0, cardIndex = 1\<rparr>
        \<lparr>pileType = Tableau, pileIndex = 0, cardIndex = 0\<rparr> 0 = Inr True
   \<and> executeMove now wasteKingTopState \<lparr>pileType = Waste, pileIndex = 0, cardIndex = 1\<rparr>
        \<lparr>pileType = Tableau, pileIndex = 0, cardIndex = 0\<rparr> 0
     = Inr \<lparr>success = True,
            result_state = Some (wasteKingTopState\<lparr>score := score wasteKingTopState + 5,
                                  moves := moves wasteKingTopState + 1, startTime := Some now\<rparr>),
            result_error = None,
            result_move = Some \<lparr>move_from = \<lparr>pileType = Waste, pileIndex = 0, cardIndex = 1\<rparr>,
                                 move_to = \<lparr>pileType = Tableau, pileIndex = 0, cardIndex = 0\<rparr>,
                                 cardCount = 0, flippedCard = False, scoreChange = 5\<rparr>\<rparr>"
  by (simp add: example_defs engine_defs)

text \<open>
  C6 says that \<open>executeMove\<close> answers an invalid move with a failure result and never
  raises.  With a tableau source and \<open>from.cardIndex = -1\<close> the loop of
  \<open>canPickUpCards\<close> reads \<open>cards[-1].faceUp\<close> and the call raises a TypeError.
\<close>

theorem executeMove_negative_index_raises:
  "executeMove now (emptyState DEFAULT_CONFIG) \<lparr>pileType = Tableau, pileIndex = 0, cardIndex = - 1\<rparr>
        \<lparr>pileType = Tableau, pileIndex = 1, cardIndex = 0\<rparr> 1 = Inl TypeError"
  by (simp add: example_defs engine_defs faceUp_from_neg)

text \<open>
  C3 says that \<open>canAutoMove\<close> returns a destination exactly when
  \<open>autoMoveToFoundation\<close> succeeds.  For a face-up King below the top of the waste and
  an empty column, \<open>canAutoMove\<close> returns that column and \<open>autoMoveToFoundation\<close>
  fails: only the latter validates the move to the column.
\<close>

theorem canAutoMove_disagrees:
  "canAutoMove kingWasteState \<lparr>pileType = Waste, pileIndex = 0, cardIndex = 0\<rparr>
     = Inr (Some \<lparr>pileType = Tableau, pileIndex = 0, cardIndex = 0\<rparr>)
   \<and> autoMoveToFoundation now kingWasteState \<lparr>pileType = Waste, pileIndex = 0, cardIndex = 0\<rparr>
     = Inr (failure ''Invalid move'')"
  by (simp add: canAutoMove_def autoMoveToFoundation_def example_defs engine_defs faceUp_from_nonneg)

subsection \<open>What \<open>executeMove\<close> and the auto-move pair do guarantee\<close>

text \<open>
  Whenever \<open>executeMove\<close> returns, it returns the failure \<open>Invalid move\<close> exactly when
  \<open>isValidMove\<close> is false, and a failure carries no state; with a source index that is
  not negative it always returns.
\<close>

lemma success_record_move [simp]: "success (record_move now s from to n b)"
  by (simp add: record_move_def Let_def)

lemma commit_move_success: "commit_move now s from to n = Inr r \<Longrightarrow> success r"
  by (auto simp: commit_move_def split: sum.splits prod.splits)

lemma executeMove_failure_iff:
  assumes "executeMove now s from to n = Inr r"
  shows "(\<not> success r \<longleftrightarrow> isValidMove s from to n = Inr False)
       \<and> (\<not> success r \<longrightarrow> r = failure ''Invalid move'')"
proof (cases "isValidMove s from to n")
  case (Inl e)
  with assms show ?thesis by (simp add: executeMove_def)
next
  case (Inr valid)
  show ?thesis
  proof (cases valid)
    case True
    with Inr assms have "commit_move now s from to n = Inr r"
      by (simp add: executeMove_def cloneState_def)
    from commit_move_success[OF this] Inr True show ?thesis by simp
  next
    case False
    with Inr assms show ?thesis by (auto simp: executeMove_def failure_def)
  qed
qed

lemma getPile_putPile_None: "(getPile (putPile s l' q) l = None) = (getPile s l = None)"
  by (cases "pileType l"; cases "pileType l'") (simp_all add: getPile_def putPile_def js_nth_def)

lemma isValidMove_piles:
  "isValidMove s from to n = Inr True \<Longrightarrow> getPile s from \<noteq> None \<and> getPile s to \<noteq> None"
  by (auto simp: isValidMove_def split: option.splits)

lemma commit_move_returns:
  assumes "getPile s from \<noteq> None" "getPile s to \<noteq> None"
  shows "\<exists>r. commit_move now s from to n = Inr r"
proof -
  from assms obtain src dst0 where src: "getPile s from = Some src" and dst0: "getPile s to = Some dst0"
    by auto
  obtain moved remaining where sp: "js_splice (cards src) (cardIndex from) n = (moved, remaining)"
    by (cases "js_splice (cards src) (cardIndex from) n")
  define s1 where "s1 = putPile s from (src\<lparr>cards := remaining\<rparr>)"
  have "getPile s1 to \<noteq> None" using dst0 by (simp add: s1_def getPile_putPile_None)
  then obtain dst where dst: "getPile s1 to = Some dst" by auto
  define s2 where "s2 = putPile s1 to (dst\<lparr>cards := cards dst @ moved\<rparr>)"
  have t: "transfer_cards s from to n = Inr s2"
    using src dst0 sp dst by (simp add: transfer_cards_def s1_def s2_def)
  have "getPile s2 from \<noteq> None" using src by (simp add: s2_def s1_def getPile_putPile_None)
  then obtain src2 where "getPile s2 from = Some src2" by auto
  then have "\<exists>s3 b. flip_exposed s2 from = Inr (s3, b)"
    by (auto simp: flip_exposed_def)
  then obtain s3 b where "flip_exposed s2 from = Inr (s3, b)" by blast
  with t show ?thesis by (simp add: commit_move_def)
qed

lemma executeMove_returns:
  assumes "0 \<le> cardIndex from"
  shows "\<exists>r. executeMove now s from to n = Inr r"
proof -
  from isValidMove_nonneg[OF assms] obtain b where b: "isValidMove s from to n = Inr b" by blast
  show ?thesis
  proof (cases b)
    case True
    with b isValidMove_piles[of s "from" to n] commit_move_returns[of s "from" to now n]
    show ?thesis by (auto simp: executeMove_def cloneState_def)
  next
    case False
    with b show ?thesis by (simp add: executeMove_def)
  qed
qed

text \<open>
  A success of \<open>autoMoveToFoundation\<close> commits the move to the location that
  \<open>canAutoMove\<close> returns; and where \<open>canAutoMove\<close> returns a location,
  \<open>autoMoveToFoundation\<close> is \<open>executeMove\<close> to that location, so it succeeds exactly
  when that move is valid.
\<close>

lemma executeMove_move_to:
  assumes "executeMove now s from to n = Inr r" "success r"
  shows "\<exists>m. result_move r = Some m \<and> move_to m = to"
proof -
  from assms have "commit_move now s from to n = Inr r"
    by (auto simp: executeMove_def cloneState_def failure_def split: sum.splits if_splits)
  then obtain s3 b where "r = record_move now s3 from to n b"
    by (auto simp: commit_move_def split: sum.splits prod.splits)
  then show ?thesis by (simp add: record_move_def Let_def)
qed

lemma autoMove_success_canAutoMove:
  assumes a: "autoMoveToFoundation now s from = Inr r" and ok: "success r"
  shows "\<exists>to m. canAutoMove s from = Inr (Some to) \<and> result_move r = Some m \<and> move_to m = to"
proof -
  from a ok obtain src where src: "getPile s from = Some src"
    by (auto simp: autoMoveToFoundation_def failure_def split: option.splits)
  show ?thesis
  proof (cases "cardIndex from \<noteq> int (length (cards src)) - 1")
    case True
    with a ok src obtain c to where c: "js_nth (cards src) (cardIndex from) = Some c" "faceUp c" "rank c = 13"
      and up: "faceUp_from (cards src) (cardIndex from) = Inr True"
      and e: "first_empty_tableau s [0, 1, 2, 3, 4, 5, 6] = Inr (Some to)"
      and x: "executeMove now s from to (int (length (cards src)) - cardIndex from) = Inr r"
      by (auto simp: autoMoveToFoundation_def failure_def split: option.splits sum.splits if_splits)
    from src True c up e have "canAutoMove s from = Inr (Some to)"
      by (simp add: canAutoMove_def)
    with executeMove_move_to[OF x ok] show ?thesis by blast
  next
    case False
    with a ok src obtain c where c: "js_nth (cards src) (cardIndex from) = Some c" "faceUp c"
      by (auto simp: autoMoveToFoundation_def failure_def split: option.splits sum.splits if_splits)
    show ?thesis
    proof (cases "first_valid_foundation s from [0, 1, 2, 3]")
      case (Inl e)
      with a src False c show ?thesis by (simp add: autoMoveToFoundation_def)
    next
      case (Inr found)
      show ?thesis
      proof (cases found)
        case (Some to)
        with a src False c Inr have x: "executeMove now s from to 1 = Inr r"
          by (simp add: autoMoveToFoundation_def)
        from src False c Inr Some have "canAutoMove s from = Inr (Some to)"
          by (simp add: canAutoMove_def)
        with executeMove_move_to[OF x ok] show ?thesis by blast
      next
        case None
        have k: "rank c = 13"
        proof (rule ccontr)
          assume "rank c \<noteq> 13"
          with a src False c Inr None have "r = failure ''No valid move for this card''"
            by (simp add: autoMoveToFoundation_def)
          with ok show False by (simp add: failure_def)
        qed
        show ?thesis
        proof (cases "first_empty_tableau s [0, 1, 2, 3, 4, 5, 6]")
          case (Inl e)
          with a src False c \<open>first_valid_foundation s from [0, 1, 2, 3] = Inr found\<close> None k
          show ?thesis by (simp add: autoMoveToFoundation_def)
        next
          case e: (Inr empty)
          show ?thesis
          proof (cases empty)
            case none: None
            with a src False c \<open>first_valid_foundation s from [0, 1, 2, 3] = Inr found\<close> None k e
            have "r = failure ''No valid move for this card''"
              by (simp add: autoMoveToFoundation_def)
            with ok show ?thesis by (simp add: failure_def)
          next
            case (Some to)
            with a src False c \<open>first_valid_foundation s from [0, 1, 2, 3] = Inr found\<close> None k e
            have x: "executeMove now s from to 1 = Inr r"
              by (simp add: autoMoveToFoundation_def)
            from src False c \<open>first_valid_foundation s from [0, 1, 2, 3] = Inr found\<close> None k e Some
            have "canAutoMove s from = Inr (Some to)"
              by (simp add: canAutoMove_def)
            with executeMove_move_to[OF x ok] show ?thesis by blast
          qed
        qed
      qed
    qed
  qed
qed


lemma canAutoMove_autoMove:
  assumes a: "canAutoMove s from = Inr (Some to)"
  shows "\<exists>n. autoMoveToFoundation now s from = executeMove now s from to n"
proof -
  from a obtain src where src: "getPile s from = Some src"
    by (auto simp: canAutoMove_def split: option.splits)
  from a src obtain c where c: "js_nth (cards src) (cardIndex from) = Some c"
    by (auto simp: canAutoMove_def split: option.splits)
  from a src c have up: "faceUp c"
    by (auto simp: canAutoMove_def split: if_splits)
  show ?thesis
  proof (cases "cardIndex from = int (length (cards src)) - 1")
    case True
    show ?thesis
    proof (cases "first_valid_foundation s from [0, 1, 2, 3]")
      case (Inl e)
      with a src c up True show ?thesis by (simp add: canAutoMove_def)
    next
      case (Inr found)
      show ?thesis
      proof (cases found)
        case (Some to')
        with a src c up True Inr have "to' = to" by (simp add: canAutoMove_def)
        with src c up True Inr Some show ?thesis by (auto simp: autoMoveToFoundation_def)
      next
        case None
        with a src c up True Inr have k: "rank c = 13"
          and e: "first_empty_tableau s [0, 1, 2, 3, 4, 5, 6] = Inr (Some to)"
          by (auto simp: canAutoMove_def split: if_splits sum.splits option.splits)
        with src c up True Inr None show ?thesis by (auto simp: autoMoveToFoundation_def)
      qed
    qed
  next
    case False
    with a src c up have k: "rank c = 13"
      and f: "faceUp_from (cards src) (cardIndex from) = Inr True"
      and e: "first_empty_tableau s [0, 1, 2, 3, 4, 5, 6] = Inr (Some to)"
      by (auto simp: canAutoMove_def split: if_splits sum.splits option.splits)
    with src c up False show ?thesis by (auto simp: autoMoveToFoundation_def)
  qed
qed

subsection \<open>Drawing and recycling\<close>

lemma draw_loop_append:
  "draw_loop (length ys) (xs @ ys) wa = (xs, wa @ map (\<lambda>c. flipCard c True) (rev ys))"
proof (induction ys arbitrary: wa rule: rev_induct)
  case Nil
  then show ?case by simp
next
  case (snoc y ys)
  have "draw_loop (length (ys @ [y])) (xs @ ys @ [y]) wa
        = draw_loop (length ys) (xs @ ys) (wa @ [flipCard y True])"
    by (simp add: butlast_append)
  then show ?case using snoc by simp
qed

lemma draw_loop_closed:
  assumes "m \<le> length st"
  shows "draw_loop m st wa
         = (take (length st - m) st, wa @ map (\<lambda>c. flipCard c True) (rev (drop (length st - m) st)))"
proof -
  have "draw_loop (length (drop (length st - m) st)) (take (length st - m) st @ drop (length st - m) st) wa
        = (take (length st - m) st, wa @ map (\<lambda>c. flipCard c True) (rev (drop (length st - m) st)))"
    by (rule draw_loop_append)
  moreover have "length (drop (length st - m) st) = m" using assms by simp
  ultimately show ?thesis by simp
qed

lemma reset_loop_closed:
  "reset_loop wa st = ([], st @ map (\<lambda>c. flipCard c False) (rev wa))"
proof (induction wa arbitrary: st rule: rev_induct)
  case Nil
  then show ?case by (subst reset_loop.simps) simp
next
  case (snoc y ys)
  show ?case by (subst reset_loop.simps) (simp add: snoc)
qed

lemma drawFromStock_closed:
  assumes "cards (stock state) \<noteq> []"
  shows "drawFromStock now state =
     state\<lparr>stock := (stock state)\<lparr>cards := take (length (cards (stock state)) - drawCount_of state) (cards (stock state))\<rparr>,
           waste := (waste state)\<lparr>cards := cards (waste state) @ map (\<lambda>c. flipCard c True)
                       (rev (drop (length (cards (stock state)) - drawCount_of state) (cards (stock state))))\<rparr>,
           startTime := (case startTime state of None \<Rightarrow> Some now | Some t \<Rightarrow> Some t),
           moves := moves state + 1\<rparr>"
proof -
  have m: "drawCount_of state \<le> length (cards (stock state))" by (simp add: drawCount_of_def)
  show ?thesis
    using assms draw_loop_closed[OF m, of "cards (waste state)"]
    by (cases "startTime state")
       (simp_all add: drawFromStock_def cloneState_def start_timer_def Let_def drawCount_of_def)
qed

lemma drawAll_closed:
  "\<exists>t m. drawAll clock state =
     state\<lparr>stock := (stock state)\<lparr>cards := []\<rparr>,
           waste := (waste state)\<lparr>cards := cards (waste state) @ map (\<lambda>c. flipCard c True) (rev (cards (stock state)))\<rparr>,
           startTime := t, moves := m\<rparr>"
proof (induction clock state rule: drawAll.induct)
  case (1 clock state)
  show ?case
  proof (cases "cards (stock state) = []")
    case True
    have "drawAll clock state = state" using True by (subst drawAll.simps) simp
    moreover have "state = state\<lparr>stock := (stock state)\<lparr>cards := []\<rparr>,
           waste := (waste state)\<lparr>cards := cards (waste state) @ map (\<lambda>c. flipCard c True) (rev (cards (stock state)))\<rparr>,
           startTime := startTime state, moves := moves state\<rparr>"
      using True by simp
    ultimately show ?thesis by metis
  next
    case False
    let ?d = "drawFromStock (clock 0) state"
    let ?k = "length (cards (stock state)) - drawCount_of state"
    from False have unf: "drawAll clock state = drawAll (\<lambda>k. clock (Suc k)) ?d"
      by (subst drawAll.simps) simp
    from False 1 obtain t m where ih: "drawAll (\<lambda>k. clock (Suc k)) ?d =
       ?d\<lparr>stock := (stock ?d)\<lparr>cards := []\<rparr>,
           waste := (waste ?d)\<lparr>cards := cards (waste ?d) @ map (\<lambda>c. flipCard c True) (rev (cards (stock ?d)))\<rparr>,
           startTime := t, moves := m\<rparr>"
      by auto
    have rv: "rev (drop ?k (cards (stock state))) @ rev (take ?k (cards (stock state))) = rev (cards (stock state))"
      by (metis append_take_drop_id rev_append)
    have "drawAll clock state = state\<lparr>stock := (stock state)\<lparr>cards := []\<rparr>,
           waste := (waste state)\<lparr>cards := cards (waste state) @ map (\<lambda>c. flipCard c True) (rev (cards (stock state)))\<rparr>,
           startTime := t, moves := m\<rparr>"
      unfolding unf ih
      by (simp add: drawFromStock_closed[OF False] rv[symmetric] del: rev_append)
    then show ?thesis by blast
  qed
qed

lemma flip_twice: "flipCard (flipCard c True) False = flipCard c False"
  by (simp add: flipCard_def)

lemmas more_defs = vegasExhaustedState_def vegasLimitedConfig_def drawThreeState_def fixedClock_def

text \<open>
  C7, as stated, for every state with a non-empty stock and an empty waste.  In vegas
  mode with limited passes and three passes used, \<open>resetStock\<close> is a no-op: after
  drawing everything the stock stays empty, the waste keeps the cards and \<open>stockPasses\<close>
  is not incremented.
\<close>

theorem reset_after_three_passes:
  "map card_id (cards (stock (resetStock (drawAll fixedClock vegasExhaustedState))))
     \<noteq> map card_id (cards (stock vegasExhaustedState))
   \<and> cards (waste (resetStock (drawAll fixedClock vegasExhaustedState))) \<noteq> []
   \<and> stockPasses (resetStock (drawAll fixedClock vegasExhaustedState)) = stockPasses vegasExhaustedState"
proof -
  obtain t m where d: "drawAll fixedClock vegasExhaustedState =
     vegasExhaustedState\<lparr>stock := (stock vegasExhaustedState)\<lparr>cards := []\<rparr>,
       waste := (waste vegasExhaustedState)\<lparr>cards := cards (waste vegasExhaustedState)
           @ map (\<lambda>c. flipCard c True) (rev (cards (stock vegasExhaustedState)))\<rparr>,
       startTime := t, moves := m\<rparr>"
    using drawAll_closed by blast
  show ?thesis unfolding d
    by (simp add: resetStock_def more_defs emptyState_def createPile_def createCard_def)
qed

text \<open>
  C7, amended: for every state with a non-empty stock and an empty waste in which the
  reset is permitted (not vegas mode with limited passes and three passes used), drawing
  until the stock is empty and then calling \<open>resetStock\<close> yields a stock that holds the
  original stock's cards in the original order, each turned face-down, so with the same
  identities; the waste is empty and \<open>stockPasses\<close> is one more.
\<close>

theorem draw_all_then_reset:
  assumes stock_ne: "cards (stock s) \<noteq> []"
    and waste_empty: "cards (waste s) = []"
    and permitted: "\<not> (scoringMode (config s) = Vegas \<and> \<not> unlimitedPasses (config s) \<and> stockPasses s \<ge> 3)"
  shows "cards (stock (resetStock (drawAll clock s))) = map (\<lambda>c. flipCard c False) (cards (stock s))
       \<and> map card_id (cards (stock (resetStock (drawAll clock s)))) = map card_id (cards (stock s))
       \<and> list_all (\<lambda>c. \<not> faceUp c) (cards (stock (resetStock (drawAll clock s))))
       \<and> cards (waste (resetStock (drawAll clock s))) = []
       \<and> stockPasses (resetStock (drawAll clock s)) = stockPasses s + 1"
proof -
  obtain t m where d: "drawAll clock s =
     s\<lparr>stock := (stock s)\<lparr>cards := []\<rparr>,
       waste := (waste s)\<lparr>cards := cards (waste s) @ map (\<lambda>c. flipCard c True) (rev (cards (stock s)))\<rparr>,
       startTime := t, moves := m\<rparr>"
    using drawAll_closed by blast
  have st: "cards (stock (resetStock (drawAll clock s))) = map (\<lambda>c. flipCard c False) (cards (stock s))"
    unfolding d using assms
    by (simp add: resetStock_def cloneState_def Let_def reset_loop_closed rev_map flip_twice o_def)
  have wa: "cards (waste (resetStock (drawAll clock s))) = []"
    unfolding d using assms
    by (simp add: resetStock_def cloneState_def Let_def reset_loop_closed)
  have sp: "stockPasses (resetStock (drawAll clock s)) = stockPasses s + 1"
    unfolding d using assms
    by (simp add: resetStock_def cloneState_def Let_def reset_loop_closed)
  have ids: "map card_id (map (\<lambda>c. flipCard c False) xs) = map card_id xs" for xs
    by (induction xs) (simp_all add: flipCard_def)
  have down: "list_all (\<lambda>c. \<not> faceUp c) (map (\<lambda>c. flipCard c False) xs)" for xs
    by (induction xs) (simp_all add: flipCard_def)
  show ?thesis using st wa sp ids down by simp
qed

theorem draw_all_then_reset_witness:
  "cards (stock drawThreeState) \<noteq> [] \<and> cards (waste drawThreeState) = []
   \<and> cards (stock (resetStock (drawAll fixedClock drawThreeState))) = cards (stock drawThreeState)
   \<and> cards (waste (resetStock (drawAll fixedClock drawThreeState))) = []
   \<and> stockPasses (resetStock (drawAll fixedClock drawThreeState)) = 1"
proof -
  have h1: "cards (stock drawThreeState) \<noteq> []"
    by (simp add: more_defs emptyState_def)
  have h2: "cards (waste drawThreeState) = []"
    by (simp add: more_defs emptyState_def createPile_def)
  have h3: "\<not> (scoringMode (config drawThreeState) = Vegas \<and> \<not> unlimitedPasses (config drawThreeState)
                \<and> stockPasses drawThreeState \<ge> 3)"
    by (simp add: more_defs emptyState_def DEFAULT_CONFIG_def)
  have f: "map (\<lambda>c. flipCard c False) (cards (stock drawThreeState)) = cards (stock drawThreeState)"
    by (simp add: more_defs emptyState_def createCard_def flipCard_def)
  have p: "stockPasses drawThreeState = 0"
    by (simp add: more_defs emptyState_def)
  show ?thesis
    using draw_all_then_reset[OF h1 h2 h3, of fixedClock] h1 h2 f p by simp
qed

subsection \<open>Card conservation\<close>

lemma cardIds_append [simp]: "cardIds (xs @ ys) = cardIds xs + cardIds ys"
  by (simp add: cardIds_def)

lemma cardIds_Nil [simp]: "cardIds [] = {#}"
  by (simp add: cardIds_def)

lemma allIds_split:
  "allIds state = cardIds (cards (stock state)) + cardIds (cards (waste state))
     + cardIds (concat (map cards (foundations state))) + cardIds (concat (map cards (tableau state)))"
  by (simp add: allIds_def getAllCards_def)

lemma concat_update_ids:
  "i < length ps \<Longrightarrow>
   cardIds (concat (map cards (ps[i := p']))) + cardIds (cards (ps ! i))
   = cardIds (concat (map cards ps)) + cardIds (cards p')"
proof (induction ps arbitrary: i)
  case Nil
  then show ?case by simp
next
  case (Cons p ps)
  show ?case
  proof (cases i)
    case 0
    then show ?thesis by simp
  next
    case (Suc j)
    with Cons.prems have "j < length ps" by simp
    from Cons.IH[OF this] Suc show ?thesis by (simp add: ac_simps)
  qed
qed




lemma allIds_frame [simp]:
  "allIds (s\<lparr>score := a\<rparr>) = allIds s"
  "allIds (s\<lparr>moves := b\<rparr>) = allIds s"
  "allIds (s\<lparr>startTime := c\<rparr>) = allIds s"
  "allIds (s\<lparr>endTime := d\<rparr>) = allIds s"
  "allIds (s\<lparr>isWon := e\<rparr>) = allIds s"
  "allIds (s\<lparr>stockPasses := f\<rparr>) = allIds s"
  "allIds (start_timer now s) = allIds s"
  by (simp_all add: allIds_split start_timer_def)












lemma cardIds_flip_map [simp]: "cardIds (map (\<lambda>c. flipCard c b) xs) = cardIds xs"
  by (induction xs) (simp_all add: cardIds_def flipCard_def)

lemma cardIds_rev [simp]: "cardIds (rev xs) = cardIds xs"
  by (simp add: cardIds_def rev_map[symmetric])

lemma cardIds_take_drop: "cardIds (take k xs) + cardIds (drop k xs) = cardIds xs"
  using cardIds_append[of "take k xs" "drop k xs"] by simp



lemma deal_order_rows: "\<forall>(row, up) \<in> set deal_order. row < 7"
  by (auto simp: deal_order_def)

lemma length_deal_order: "length deal_order = 28"
  by (simp add: deal_order_def upt_rec)

subsection \<open>Rounding to double precision\<close>

lemma bit_length_bounds:
  "0 < n \<Longrightarrow> 2 ^ (bit_length n - 1) \<le> n \<and> n < 2 ^ bit_length n"
proof (induction n rule: bit_length.induct)
  case (1 n)
  show ?case
  proof (cases "n div 2 = 0")
    case True
    with 1(2) have "n = 1" by (simp add: div_eq_0_iff) 
    moreover have "bit_length (Suc 0) = Suc 0"
      by (simp add: bit_length.simps[of "Suc 0"] bit_length.simps[of 0])
    ultimately show ?thesis by simp
  next
    case False
    then have pos: "0 < n div 2" by simp
    from 1(1)[OF _ pos] 1(2)
    have ih: "2 ^ (bit_length (n div 2) - 1) \<le> n div 2" "n div 2 < 2 ^ bit_length (n div 2)"
      by auto
    have bl: "bit_length n = Suc (bit_length (n div 2))"
      using 1(2) by (subst bit_length.simps) simp
    have p: "0 < bit_length (n div 2)"
      using pos by (subst bit_length.simps) simp
    then have "(2::nat) ^ bit_length (n div 2) = 2 * 2 ^ (bit_length (n div 2) - 1)"
      by (cases "bit_length (n div 2)") simp_all
    with ih show ?thesis unfolding bl by (simp, linarith)
  qed
qed

lemma bit_length_ge:
  assumes "2 ^ k \<le> n"
  shows "k < bit_length n"
proof -
  have "0 < n" using assms by (metis zero_less_numeral zero_less_power less_le_trans)
  from bit_length_bounds[OF this] assms have "(2::nat) ^ k < 2 ^ bit_length n" by linarith
  then show ?thesis by simp
qed

lemma bit_length_le:
  assumes "n < 2 ^ k"
  shows "bit_length n \<le> k"
proof (cases "n = 0")
  case True
  then show ?thesis by (simp add: bit_length.simps[of 0])
next
  case False
  then have "0 < n" by simp
  from bit_length_bounds[OF this] assms have "(2::nat) ^ (bit_length n - 1) < 2 ^ k" by linarith
  then have "bit_length n - 1 < k" by simp
  then show ?thesis by linarith
qed


lemma round53_small: "n < 2 ^ 53 \<Longrightarrow> round53 n = n"
  by (simp add: round53_def)

lemma round53_cases:
  assumes "2 ^ 53 \<le> n"
  shows "round53 n = (n div 2 ^ (bit_length n - 53)) * 2 ^ (bit_length n - 53)
       \<or> (round53 n = (n div 2 ^ (bit_length n - 53) + 1) * 2 ^ (bit_length n - 53)
          \<and> 2 ^ (bit_length n - 54) \<le> n mod 2 ^ (bit_length n - 53))"
proof -
  have "53 < bit_length n" using assms by (rule bit_length_ge)
  then have "bit_length n - 53 - 1 = bit_length n - 54" by simp
  with assms show ?thesis
    by (auto simp: round53_def Let_def not_less)
qed

lemma round53_upper:
  assumes "2 ^ 53 \<le> n"
  shows "round53 n \<le> n + 2 ^ (bit_length n - 54)"
proof -
  let ?e = "bit_length n - 53"
  have bl: "53 < bit_length n" using assms by (rule bit_length_ge)
  have split: "n = (n div 2 ^ ?e) * 2 ^ ?e + n mod 2 ^ ?e"
    by (rule div_mult_mod_eq[symmetric])
  have two: "(2::nat) ^ ?e = 2 * 2 ^ (bit_length n - 54)"
  proof -
    have "?e = Suc (bit_length n - 54)" using bl by simp
    then show ?thesis by (simp only: power_Suc)
  qed
  from round53_cases[OF assms] show ?thesis
  proof
    assume "round53 n = (n div 2 ^ ?e) * 2 ^ ?e"
    with split show ?thesis by linarith
  next
    assume a: "round53 n = (n div 2 ^ ?e + 1) * 2 ^ ?e
          \<and> 2 ^ (bit_length n - 54) \<le> n mod 2 ^ ?e"
    then have "round53 n = (n div 2 ^ ?e) * 2 ^ ?e + 2 ^ ?e" by (simp add: algebra_simps)
    with a split two show ?thesis by linarith
  qed
qed

lemma half_ulp_bound:
  assumes "2 ^ 53 \<le> n"
  shows "2 ^ (bit_length n - 54) * 2 ^ 53 \<le> n"
proof -
  have bl: "53 < bit_length n" using assms by (rule bit_length_ge)
  have "0 < n" using assms by (metis zero_less_numeral zero_less_power less_le_trans)
  from bit_length_bounds[OF this] have "2 ^ (bit_length n - 1) \<le> n" by simp
  moreover have "bit_length n - 1 = (bit_length n - 54) + 53" using bl by simp
  then have "(2::nat) ^ (bit_length n - 54) * 2 ^ 53 = 2 ^ (bit_length n - 1)"
    by (simp only: power_add)
  ultimately show ?thesis by (simp only:)
qed

lemma round53_le_double: "round53 n \<le> 2 * n"
proof (cases "n < 2 ^ 53")
  case True
  then show ?thesis by (simp add: round53_small)
next
  case False
  then have ge: "2 ^ 53 \<le> n" by simp
  have "(2::nat) ^ (bit_length n - 54) \<le> 2 ^ (bit_length n - 54) * 2 ^ 53" by simp
  with half_ulp_bound[OF ge] round53_upper[OF ge] show ?thesis by linarith
qed

text \<open>A double below \<open>2 ^ s\<close> leaves a gap to \<open>2 ^ s\<close> of at least its own unit.\<close>

lemma double_gap:
  assumes dbl: "round53 N = N" and lt: "N < 2 ^ s"
  shows "\<exists>g. 0 < g \<and> N + g \<le> 2 ^ s \<and> N < g * 2 ^ 53"
proof (cases "N < 2 ^ 53")
  case True
  with lt show ?thesis by (intro exI[of _ 1]) simp
next
  case False
  then have ge: "2 ^ 53 \<le> N" by simp
  let ?e = "bit_length N - 53"
  have bl: "53 < bit_length N" using ge by (rule bit_length_ge)
  have pos: "0 < N" using ge by (metis zero_less_numeral zero_less_power less_le_trans)
  have dv: "2 ^ ?e dvd N"
  proof -
    from round53_cases[OF ge] dbl
    have "N = (N div 2 ^ ?e) * 2 ^ ?e \<or> N = (N div 2 ^ ?e + 1) * 2 ^ ?e" by auto
    then show ?thesis by (metis dvd_triv_right)
  qed
  have le: "bit_length N \<le> s" using lt by (rule bit_length_le)
  then have es: "?e \<le> s" by simp
  then have dv2: "(2::nat) ^ ?e dvd 2 ^ s" by (rule le_imp_power_dvd)
  from dv obtain a where a: "N = 2 ^ ?e * a" by (auto elim: dvdE)
  from dv2 obtain b where b: "(2::nat) ^ s = 2 ^ ?e * b" by (auto elim: dvdE)
  from lt a b have "a < b" by (metis nat_mult_less_cancel_disj)
  then have "Suc a \<le> b" by simp
  then have "2 ^ ?e * Suc a \<le> 2 ^ ?e * b" by (rule mult_le_mono2)
  then have gap: "N + 2 ^ ?e \<le> 2 ^ s" using a b by simp
  have "N < 2 ^ bit_length N" using bit_length_bounds[OF pos] by simp
  also have "(2::nat) ^ bit_length N = 2 ^ ?e * 2 ^ 53"
  proof -
    have "bit_length N = ?e + 53" using bl by simp
    then show ?thesis by (metis power_add)
  qed
  finally have "N < 2 ^ ?e * 2 ^ 53" .
  with gap show ?thesis by (intro exI[of _ "2 ^ ?e"]) simp
qed

lemma pick_below:
  assumes dbl: "round53 N = N" and lt: "N < 2 ^ s" and n: "0 < n"
  shows "round53 (N * n) < n * 2 ^ s"
proof -
  from double_gap[OF dbl lt] obtain g where g: "0 < g" "N + g \<le> 2 ^ s" "N < g * 2 ^ 53" by blast
  from g(2) have "(N + g) * n \<le> 2 ^ s * n" by (rule mult_le_mono1)
  then have top: "(N + g) * n \<le> n * 2 ^ s" by (simp only: mult.commute)
  show ?thesis
  proof (cases "N * n < 2 ^ 53")
    case True
    then have "round53 (N * n) = N * n" by (rule round53_small)
    moreover have "N * n < (N + g) * n" using g(1) n by simp
    ultimately show ?thesis using top by linarith
  next
    case False
    then have ge: "2 ^ 53 \<le> N * n" by simp
    let ?h = "2 ^ (bit_length (N * n) - 54) :: nat"
    have "?h * 2 ^ 53 \<le> N * n" by (rule half_ulp_bound[OF ge])
    also have "N * n < (g * 2 ^ 53) * n" using g(3) n by simp
    finally have "?h * 2 ^ 53 < (g * n) * 2 ^ 53" by (simp add: mult_ac)
    then have "?h < g * n" by simp
    with round53_upper[OF ge] have "round53 (N * n) < N * n + g * n" by linarith
    also have "\<dots> = (N + g) * n" by (simp add: algebra_simps)
    finally show ?thesis using top by (rule less_le_trans)
  qed
qed

lemma floor_times_in_range:
  assumes dbl: "round53 N = N" and lt: "N < 2 ^ s" and n: "0 < n"
  shows "\<exists>j. floor_times (Frac (int N) s) n = Finite (int j) \<and> j < n"
proof -
  let ?j = "round53 (N * n) div 2 ^ s"
  have "?j < n" using pick_below[OF dbl lt n] by (simp add: less_mult_imp_div_less)
  moreover have "floor_times (Frac (int N) s) n = Finite (int ?j)"
    by (simp add: floor_times_def zdiv_int)
  ultimately show ?thesis by blast
qed


lemma to_double_nonneg:
  assumes "0 \<le> x" "x < 2 ^ 1023"
  shows "\<exists>r. to_double x = Finite r \<and> 0 \<le> r \<and> r \<le> 2 * x"
proof -
  have "round53 (nat x) \<le> 2 * nat x" by (rule round53_le_double)
  then have le: "int (round53 (nat x)) \<le> 2 * x" using assms(1) by linarith
  have "2 * x < 2 * 2 ^ 1023" using assms(2) by simp
  also have "(2::int) * 2 ^ 1023 = 2 ^ 1024" by simp
  finally have "int (round53 (nat x)) < 2 ^ 1024" using le by linarith
  then have "\<not> round53 (nat x) \<ge> 2 ^ 1024"
    by (metis not_le of_nat_less_iff of_nat_numeral of_nat_power)
  then have "to_double x = Finite (int (round53 (nat x)))"
    using assms(1) by (simp add: to_double_def Let_def)
  with le show ?thesis by simp
qed

lemma lcg_next_good:
  assumes "0 \<le> z" "z < 2 ^ 990"
  shows "\<exists>z'. lcg_next (Finite z) = Finite z' \<and> 0 \<le> z' \<and> z' < 2 ^ 31"
proof -
  have a0: "0 \<le> 1103515245 * z" using assms(1) by simp
  have "1103515245 * z < 2 ^ 31 * 2 ^ 990"
    using assms by (intro mult_strict_mono) simp_all
  also have "(2::int) ^ 31 * 2 ^ 990 = 2 ^ 1021" by (simp only: power_add[symmetric]) simp
  finally have a1: "1103515245 * z < 2 ^ 1021" .
  then have "1103515245 * z < 2 ^ 1023"
    by (rule less_le_trans) (rule power_increasing, simp_all)
  from to_double_nonneg[OF a0 this] obtain r1
    where r1: "to_double (1103515245 * z) = Finite r1" "0 \<le> r1" "r1 \<le> 2 * (1103515245 * z)"
    by blast
  have "r1 < 2 * 2 ^ 1021" using r1(3) a1 by linarith
  also have "(2::int) * 2 ^ 1021 = 2 ^ 1022" by simp
  finally have r1lt: "r1 < 2 ^ 1022" .
  have "(12345::int) < 2 ^ 1022"
    by (rule less_le_trans[of _ "2 ^ 14"], simp, rule power_increasing, simp_all)
  with r1lt have "r1 + 12345 < 2 ^ 1022 + 2 ^ 1022" by linarith
  also have "(2::int) ^ 1022 + 2 ^ 1022 = 2 ^ 1023" by simp
  finally have b1: "r1 + 12345 < 2 ^ 1023" .
  have b0: "0 \<le> r1 + 12345" using r1(2) by simp
  from to_double_nonneg[OF b0 b1] obtain r2
    where r2: "to_double (r1 + 12345) = Finite r2" "0 \<le> r2" by blast
  have "lcg_next (Finite z) = Finite (r2 mod 2 ^ 31)"
    using r1(1) r2 by (simp add: lcg_next_def)
  moreover have "0 \<le> r2 mod 2 ^ 31" "r2 mod 2 ^ 31 < 2 ^ 31" by simp_all
  ultimately show ?thesis by blast
qed

lemma lcg_iter_good:
  assumes "0 \<le> z" "z < 2 ^ 990"
  shows "\<exists>z'. (lcg_next ^^ Suc k) (Finite z) = Finite z' \<and> 0 \<le> z' \<and> z' < 2 ^ 31"
proof (induction k)
  case 0
  from lcg_next_good[OF assms] show ?case by simp
next
  case (Suc k)
  then obtain z' where z': "(lcg_next ^^ Suc k) (Finite z) = Finite z'" "0 \<le> z'" "z' < 2 ^ 31"
    by blast
  have "z' < 2 ^ 990"
    using z'(3) by (rule less_le_trans) (rule power_increasing, simp_all)
  from lcg_next_good[OF z'(2) this] z'(1) show ?case by simp
qed

lemma seededRandom_good:
  assumes "0 \<le> z" "z < 2 ^ 990"
  shows "\<exists>N. seededRandom (Finite z) k = Frac (int N) 31 \<and> N < 2 ^ 31 \<and> round53 N = N"
proof -
  from lcg_iter_good[OF assms, of k] obtain z'
    where z': "(lcg_next ^^ Suc k) (Finite z) = Finite z'" "0 \<le> z'" "z' < 2 ^ 31" by blast
  have n: "nat z' < 2 ^ 31" using z'(2,3) by (simp add: nat_less_iff)
  then have "nat z' < 2 ^ 53"
    by (rule less_le_trans) (rule power_increasing, simp_all)
  then have "round53 (nat z') = nat z'" by (rule round53_small)
  moreover have "seededRandom (Finite z) k = Frac (int (nat z')) 31"
    using z'(1,2) by (simp add: seededRandom_def)
  ultimately show ?thesis using n by blast
qed

text \<open>A seed that is not a number stays so, and every draw is \<open>NaN\<close>.\<close>

lemma lcg_next_NaN: "lcg_next NaN = NaN"
  by (simp add: lcg_next_def)

lemma lcg_iter_NaN: "(lcg_next ^^ k) NaN = NaN"
  by (induction k) (simp_all add: lcg_next_NaN)

lemma seededRandom_NaN: "seededRandom NaN k = RNaN"
  by (simp add: seededRandom_def lcg_iter_NaN lcg_next_NaN del: funpow.simps)


subsection \<open>The shuffle\<close>

text \<open>
  When every draw is a double in [0, 1) the pick \<open>j\<close> is an index of the array and the
  loop permutes its elements.
\<close>

lemma shuffle_loop_good:
  assumes good: "\<forall>k. \<exists>N s. random k = Frac (int N) s \<and> N < 2 ^ s \<and> round53 N = N"
  shows "i < length (elems arr) \<Longrightarrow>
         props (shuffle_loop random k i arr) = props arr
         \<and> mset (elems (shuffle_loop random k i arr)) = mset (elems arr)"
proof (induction i arbitrary: k arr)
  case 0
  then show ?case by simp
next
  case (Suc i)
  from good obtain N s where r: "random k = Frac (int N) s" "N < 2 ^ s" "round53 N = N" by blast
  from floor_times_in_range[OF r(3) r(2), of "Suc i + 1"] r(1) obtain j
    where j: "floor_times (random k) (Suc i + 1) = Finite (int j)" "j < Suc i + 1" by auto
  let ?es = "elems arr"
  have jl: "j < length ?es" using j(2) Suc.prems by simp
  let ?arr = "arr\<lparr>elems := (?es[Suc i := ?es ! j])[j := ?es ! Suc i]\<rparr>"
  have step: "shuffle_loop random k (Suc i) arr = shuffle_loop random (Suc k) i ?arr"
    using jl Suc.prems j(1) by (simp add: Let_def js_get_def js_set_def del: of_nat_Suc)
  have sw: "mset (elems ?arr) = mset ?es"
    using mset_swap[OF jl Suc.prems] by simp
  have "i < length (elems ?arr)" using Suc.prems by simp
  from Suc.IH[OF this, of "Suc k"] sw show ?case unfolding step by simp
qed

lemma shuffle_with_good:
  assumes good: "\<forall>k. \<exists>N s. random k = Frac (int N) s \<and> N < 2 ^ s \<and> round53 N = N"
  shows "mset (elems (shuffle_with random xs)) = mset (map Some xs)"
proof (cases xs)
  case Nil
  then show ?thesis by (simp add: shuffle_with_def)
next
  case (Cons a list)
  then have "length xs - 1 < length (elems \<lparr>elems = map Some xs, props = (\<lambda>key. None)\<rparr>)" by simp
  from shuffle_loop_good[OF good this, of 0] show ?thesis by (simp add: shuffle_with_def)
qed

lemma seededRandom_values:
  assumes "0 \<le> z" "z < 2 ^ 990"
  shows "\<forall>k. \<exists>N s. seededRandom (Finite z) k = Frac (int N) s \<and> N < 2 ^ s \<and> round53 N = N"
  using seededRandom_good[OF assms] by blast

lemma createShuffledDeck_good:
  assumes "admissible_source seed rnd"
  shows "\<exists>cs. elems (createShuffledDeck seed rnd) = map Some cs \<and> mset cs = mset createDeck"
proof -
  have m: "mset (elems (createShuffledDeck seed rnd)) = mset (map Some createDeck)"
  proof (cases seed)
    case None
    with assms have "\<forall>k. \<exists>N s. mathRandom rnd k = Frac (int N) s \<and> N < 2 ^ s \<and> round53 N = N"
      by (simp add: admissible_source_def mathRandom_def)
    from shuffle_with_good[OF this] None show ?thesis
      by (simp add: createShuffledDeck_def shuffle_def)
  next
    case (Some sd)
    with assms obtain z where z: "sd = Finite z" "0 \<le> z" "z < 2 ^ 990"
      by (auto simp: admissible_source_def)
    from shuffle_with_good[OF seededRandom_values[OF z(2,3)]] Some z(1) show ?thesis
      by (simp add: createShuffledDeck_def shuffleWithSeed_def)
  qed
  let ?es = "elems (createShuffledDeck seed rnd)"
  have "set ?es = set (map Some createDeck)" using m by (rule mset_eq_setD)
  then have all: "\<forall>e \<in> set ?es. e \<noteq> None" by auto
  have "(\<forall>e \<in> set es. e \<noteq> None) \<Longrightarrow> es = map Some (map the es)" for es :: "Card option list"
    by (induction es) auto
  from this[OF all] have e: "?es = map Some (map the ?es)" .
  have "mset (map the ?es) = image_mset the (mset ?es)" by simp
  also have "\<dots> = image_mset the (mset (map Some createDeck))" by (simp only: m)
  also have "\<dots> = mset createDeck" by (simp add: multiset.map_comp o_def)
  finally have "mset (map the ?es) = mset createDeck" .
  with e show ?thesis by blast
qed

subsection \<open>The deal\<close>

lemma length_createDeck: "length createDeck = 52"
  by (simp add: createDeck_def SUITS_def RANKS_def)


lemma js_get_index:
  "elems arr = map Some cs \<Longrightarrow>
   js_get arr (Finite (int k)) = (if k < length cs then Some (cs ! k) else None)"
  by (simp add: js_get_def)

lemma deal_loop_total:
  assumes "elems deck = map Some cs"
  shows "k + length order \<le> length cs \<Longrightarrow>
         \<exists>tab'. deal_loop order deck k tab = Inr (tab', k + length order)"
proof (induction order arbitrary: k tab)
  case Nil
  then show ?case by simp
next
  case (Cons a order)
  obtain row up where a: "a = (row, up)" by (cases a)
  from Cons.prems have k: "js_get deck (Finite (int k)) = Some (cs ! k)"
    by (simp add: js_get_index[OF assms])
  from Cons.prems have "Suc k + length order \<le> length cs" by simp
  from Cons.IH[OF this] show ?case by (simp add: a k)
qed

lemma deal_loop_ids:
  assumes deck: "elems deck = map Some cs"
    and rows: "\<forall>(row, up) \<in> set order. row < length tab"
    and run: "deal_loop order deck k tab = Inr (tab', k')"
  shows "length tab' = length tab
       \<and> cardIds (concat (map cards tab'))
           = cardIds (concat (map cards tab)) + cardIds (take (length order) (drop k cs))"
  using rows run
proof (induction order arbitrary: k tab)
  case Nil
  then show ?case by simp
next
  case (Cons a order)
  obtain row up where a: "a = (row, up)" by (cases a)
  from Cons.prems(2) a obtain c where c: "js_get deck (Finite (int k)) = Some c"
    and rest: "deal_loop order deck (Suc k) (tab[row := push_card (tab ! row) (flipCard c up)]) = Inr (tab', k')"
    by (auto split: option.splits)
  from c have k: "k < length cs" "c = cs ! k"
    by (auto simp: js_get_index[OF deck] split: if_splits)
  from Cons.prems(1) a have row: "row < length tab" by simp
  let ?tab1 = "tab[row := push_card (tab ! row) (flipCard c up)]"
  have rows1: "\<forall>(row, up) \<in> set order. row < length ?tab1" using Cons.prems(1) by auto
  from Cons.IH[OF rows1 rest]
  have ih: "length tab' = length tab"
    "cardIds (concat (map cards tab')) = cardIds (concat (map cards ?tab1)) + cardIds (take (length order) (drop (Suc k) cs))"
    by auto
  have "cardIds (concat (map cards ?tab1)) + cardIds (cards (tab ! row))
        = cardIds (concat (map cards tab)) + cardIds (cards (push_card (tab ! row) (flipCard c up)))"
    by (rule concat_update_ids[OF row])
  then have t1: "cardIds (concat (map cards ?tab1)) = cardIds (concat (map cards tab)) + cardIds [c]"
    by (simp add: push_card_def cardIds_def flipCard_def)
  have "take (length (a # order)) (drop k cs) = c # take (length order) (drop (Suc k) cs)"
    using k by (simp add: Cons_nth_drop_Suc[symmetric])
  then have "cardIds (take (length (a # order)) (drop k cs)) = cardIds [c] + cardIds (take (length order) (drop (Suc k) cs))"
    by (simp add: cardIds_def)
  with ih t1 show ?case by (simp add: ac_simps)
qed

lemma createInitialState_good:
  assumes adm: "admissible_source seed rnd"
  shows "\<exists>d s. createInitialState cfg seed rnd = Inr d \<and> as_GameState d = Some s
       \<and> allIds s = cardIds createDeck
       \<and> score s = getInitialScore (scoringMode cfg) \<and> config s = cfg \<and> stockPasses s = 0
       \<and> length (cards (stock s)) = 24 \<and> cards (waste s) = []
       \<and> length (foundations s) = 4 \<and> length (tableau s) = 7"
proof -
  let ?deck = "createShuffledDeck seed rnd"
  let ?tab0 = "map (\<lambda>i. createPile Tableau i) [0, 1, 2, 3, 4, 5, 6]"
  from createShuffledDeck_good[OF adm] obtain cs
    where cs: "elems ?deck = map Some cs" "mset cs = mset createDeck" by blast
  from cs(2) have len: "length cs = 52" using length_createDeck by (metis mset_eq_length)
  have "0 + length deal_order \<le> length cs" by (simp add: length_deal_order len)
  from deal_loop_total[OF cs(1) this, of ?tab0] obtain tab1
    where d: "deal_loop deal_order ?deck 0 ?tab0 = Inr (tab1, 28)"
    by (auto simp: length_deal_order)
  have len0: "length ?tab0 = 7" by simp
  have rows: "\<forall>(row, up) \<in> set deal_order. row < length ?tab0"
    unfolding len0 by (rule deal_order_rows)
  from deal_loop_ids[OF cs(1) rows d]
  have t: "length tab1 = 7" "cardIds (concat (map cards tab1)) = cardIds (take 28 cs)"
    by (simp_all add: createPile_def length_deal_order)
  let ?shell = "\<lparr>stock = createPile Stock 0, waste = createPile Waste 0,
                  foundations = map (\<lambda>i. createPile Foundation i) [0, 1, 2, 3],
                  tableau = tab1, score = getInitialScore (scoringMode cfg), moves = 0,
                  startTime = None, endTime = None, isWon = False, stockPasses = 0,
                  config = cfg\<rparr>"
  have c: "createInitialState cfg seed rnd = Inr (drop 28 (elems ?deck), ?shell)"
    using d by (simp add: createInitialState_def Let_def)
  have dr: "drop 28 (elems ?deck) = map Some (drop 28 cs)" by (simp add: cs(1) drop_map)
  let ?s = "?shell\<lparr>stock := (stock ?shell)\<lparr>cards := drop 28 cs\<rparr>\<rparr>"
  have g: "as_GameState (drop 28 (elems ?deck), ?shell) = Some ?s"
    by (simp add: as_GameState_def dr list_all_iff o_def)
  have "allIds ?s = cardIds (drop 28 cs) + cardIds (concat (map cards tab1))"
    by (simp add: allIds_split createPile_def)
  also have "\<dots> = cardIds cs" using t(2) cardIds_take_drop[of 28 cs] by (simp add: ac_simps)
  also have "\<dots> = cardIds createDeck" using cs(2) by (simp add: cardIds_def)
  finally have ids: "allIds ?s = cardIds createDeck" .
  have f: "score ?s = getInitialScore (scoringMode cfg)" "config ?s = cfg" "stockPasses ?s = 0"
    "length (cards (stock ?s)) = 24" "cards (waste ?s) = []"
    "length (foundations ?s) = 4" "length (tableau ?s) = 7"
    using len t(1) by (simp_all add: createPile_def)
  from c g ids f show ?thesis by blast
qed

subsection \<open>The 52 cards\<close>







subsection \<open>Recycle penalty and the score floor\<close>

lemma resetStock_score:
  assumes "cards (waste s) \<noteq> []"
    and "\<not> (scoringMode (config s) = Vegas \<and> \<not> unlimitedPasses (config s) \<and> stockPasses s \<ge> 3)"
  shows "score (resetStock s) = max 0 (score s + getRecycleWastePenalty s)"
  using assms
  by (auto simp: resetStock_def cloneState_def Let_def reset_loop_closed getRecycleWastePenalty_def)

text \<open>
  C1 says that a recycle whose penalty is 0 leaves the score unchanged even when the
  score is negative.  \<open>resetStock\<close> computes \<open>Math.max(0, score + penalty)\<close> whatever
  the penalty: a vegas game dealt at -52 has score 0 after one draw and one recycle.
\<close>

theorem vegas_buy_in_lost_on_recycle:
  "\<exists>d s. createInitialState vegasConfig None firstPick = Inr d
     \<and> as_GameState d = Some s
     \<and> score s = - 52
     \<and> cards (waste (drawFromStock now s)) \<noteq> []
     \<and> score (drawFromStock now s) = - 52
     \<and> getRecycleWastePenalty (drawFromStock now s) = 0
     \<and> score (resetStock (drawFromStock now s)) = 0"
proof -
  have adm: "admissible_source None firstPick"
    by (simp add: admissible_source_def firstPick_def round53_def)
  from createInitialState_good[OF adm, of vegasConfig] obtain d s
    where d: "createInitialState vegasConfig None firstPick = Inr d" "as_GameState d = Some s"
      and f: "score s = - 52" "config s = vegasConfig" "stockPasses s = 0"
        "length (cards (stock s)) = 24" "cards (waste s) = []"
    by (auto simp: vegasConfig_def getInitialScore_def)
  have ne: "cards (stock s) \<noteq> []" using f(4) by auto
  have dc: "0 < drawCount_of s" using ne by (simp add: drawCount_of_def)
  let ?d = "drawFromStock now s"
  have "0 < length (cards (stock s))" using ne by simp
  with dc have "length (cards (stock s)) - drawCount_of s < length (cards (stock s))"
    by linarith
  then have w: "cards (waste ?d) \<noteq> []"
    by (simp add: drawFromStock_closed[OF ne])
  have sc: "score ?d = - 52" "config ?d = vegasConfig"
    using f by (simp_all add: drawFromStock_closed[OF ne])
  have pen: "getRecycleWastePenalty ?d = 0"
    using sc by (simp add: getRecycleWastePenalty_def vegasConfig_def)
  have ok: "\<not> (scoringMode (config ?d) = Vegas \<and> \<not> unlimitedPasses (config ?d) \<and> stockPasses ?d \<ge> 3)"
    using sc by (simp add: vegasConfig_def DEFAULT_CONFIG_def)
  have "score (resetStock ?d) = 0"
    using resetStock_score[OF w ok] sc pen by simp
  with d f w sc pen show ?thesis by blast
qed

subsection \<open>Manual flip\<close>

lemma update_last: "xs \<noteq> [] \<Longrightarrow> xs[length xs - Suc 0 := x] = butlast xs @ [x]"
  by (induction xs rule: rev_induct) simp_all

text \<open>
  C9: on a state with its seven tableau columns, \<open>flipTableauCard(state, i)\<close> returns a
  failure with an error exactly when \<open>i\<close> is outside [0, 7), column \<open>i\<close> is empty or its
  top card is face-up, and never raises; on success the new state is the old one with
  the top card of column \<open>i\<close> face-up and \<open>startTime\<close> set to the clock if it was
  null: score, moves and every other pile are unchanged.
\<close>

theorem flipTableauCard_frame:
  assumes wf: "length (tableau s) = 7"
  shows "\<exists>r. flipTableauCard now s i = Inr r
     \<and> (\<not> success r \<longleftrightarrow> (i < 0 \<or> 7 \<le> i \<or> cards (tableau s ! nat i) = []
                              \<or> faceUp (last (cards (tableau s ! nat i)))))
     \<and> (\<not> success r \<longrightarrow> result_error r \<noteq> None \<and> result_state r = None)
     \<and> (success r \<longrightarrow> result_error r = None \<and>
          (\<exists>s'. result_state r = Some s'
             \<and> s' = s\<lparr>tableau := (tableau s)[nat i := (tableau s ! nat i)
                          \<lparr>cards := butlast (cards (tableau s ! nat i))
                                     @ [(last (cards (tableau s ! nat i)))\<lparr>faceUp := True\<rparr>]\<rparr>],
                      startTime := (case startTime s of None \<Rightarrow> Some now | Some t \<Rightarrow> Some t)\<rparr>
             \<and> score s' = score s \<and> moves s' = moves s \<and> stock s' = stock s \<and> waste s' = waste s
             \<and> foundations s' = foundations s \<and> endTime s' = endTime s \<and> isWon s' = isWon s
             \<and> stockPasses s' = stockPasses s \<and> config s' = config s
             \<and> (\<forall>j. j \<noteq> nat i \<longrightarrow> tableau s' ! j = tableau s ! j)))"
proof (cases "i < 0 \<or> 7 \<le> i")
  case True
  then show ?thesis by (auto simp: flipTableauCard_def failure_def)
next
  case False
  then have nth: "js_nth (tableau s) i = Some (tableau s ! nat i)"
    using wf by (simp add: js_nth_def)
  let ?t = "tableau s ! nat i"
  show ?thesis
  proof (cases "cards ?t = []")
    case True
    with False nth show ?thesis by (simp add: flipTableauCard_def failure_def)
  next
    case ne: False
    show ?thesis
    proof (cases "faceUp (last (cards ?t))")
      case True
      with False nth ne show ?thesis by (simp add: flipTableauCard_def failure_def)
    next
      case down: False
      with False nth ne show ?thesis
        by (cases "startTime s")
           (simp_all add: flipTableauCard_def cloneState_def start_timer_def Let_def flipCard_def update_last)
    qed
  qed
qed

theorem flipTableauCard_frame_witness:
  "length (tableau faceDownState) = 7
   \<and> flipTableauCard 1000 faceDownState 0
       = Inr \<lparr>success = True,
              result_state = Some (faceDownState
                 \<lparr>tableau := (tableau faceDownState)
                      [0 := (createPile Tableau 0)\<lparr>cards := [createCard Hearts 9 True]\<rparr>],
                  startTime := Some 1000\<rparr>),
              result_error = None, result_move = None\<rparr>"
proof -
  have wf: "length (tableau faceDownState) = 7"
    by (simp add: faceDownState_def emptyState_def)
  have t: "tableau faceDownState ! 0 = (createPile Tableau 0)\<lparr>cards := [createCard Hearts 9 False]\<rparr>"
    by (simp add: faceDownState_def emptyState_def)
  have st: "startTime faceDownState = None"
    by (simp add: faceDownState_def emptyState_def)
  from flipTableauCard_frame[OF wf, of 1000 0] obtain r where
    r: "flipTableauCard 1000 faceDownState 0 = Inr r"
    and iff: "(\<not> success r) = ((0::int) < 0 \<or> (7::int) \<le> 0 \<or> cards (tableau faceDownState ! nat 0) = []
              \<or> faceUp (last (cards (tableau faceDownState ! nat 0))))"
    and succ: "success r \<longrightarrow> result_error r = None \<and>
          (\<exists>s'. result_state r = Some s'
             \<and> s' = faceDownState\<lparr>tableau := (tableau faceDownState)[nat 0 := (tableau faceDownState ! nat 0)
                          \<lparr>cards := butlast (cards (tableau faceDownState ! nat 0))
                                     @ [(last (cards (tableau faceDownState ! nat 0)))\<lparr>faceUp := True\<rparr>]\<rparr>],
                      startTime := (case startTime faceDownState of None \<Rightarrow> Some 1000 | Some t \<Rightarrow> Some t)\<rparr>
             \<and> True)"
    by auto
  from iff have s: "success r" by (simp add: t createCard_def)
  with succ have e: "result_error r = None"
    and rs: "result_state r = Some (faceDownState
                 \<lparr>tableau := (tableau faceDownState)
                      [0 := (createPile Tableau 0)\<lparr>cards := [createCard Hearts 9 True]\<rparr>],
                  startTime := Some 1000\<rparr>)"
    by (simp_all add: t st createCard_def)
  have m: "result_move r = None"
    using r by (auto simp: flipTableauCard_def failure_def Let_def split: option.splits if_splits)
  from s e rs m have "r = \<lparr>success = True,
              result_state = Some (faceDownState
                 \<lparr>tableau := (tableau faceDownState)
                      [0 := (createPile Tableau 0)\<lparr>cards := [createCard Hearts 9 True]\<rparr>],
                  startTime := Some 1000\<rparr>),
              result_error = None, result_move = None\<rparr>"
    by (cases r) simp
  with wf r show ?thesis by simp
qed

subsection \<open>History\<close>

lemma hist_inv_new: "hist_inv newHistory"
  by (simp add: hist_inv_def newHistory_def maxHistory_def)

lemma js_slice0_take: "0 \<le> e \<Longrightarrow> e \<le> int (length xs) \<Longrightarrow> js_slice0 xs e = take (nat e) xs"
  by (simp add: js_slice0_def Let_def min_def)

lemma push_closed:
  assumes "hist_inv h"
  shows "push entry h =
     (if currentIndex h + 2 > maxHistory
      then \<lparr>history = tl (history h) @ [entry], currentIndex = currentIndex h\<rparr>
      else \<lparr>history = take (nat (currentIndex h + 1)) (history h) @ [entry], currentIndex = currentIndex h + 1\<rparr>)"
proof -
  from assms have b: "0 \<le> currentIndex h + 1" "currentIndex h + 1 \<le> int (length (history h))"
    by (auto simp: hist_inv_def)
  have sl: "js_slice0 (history h) (currentIndex h + 1) = take (nat (currentIndex h + 1)) (history h)"
    by (rule js_slice0_take[OF b])
  have len: "int (length (take (nat (currentIndex h + 1)) (history h) @ [entry])) = currentIndex h + 2"
    using b by simp
  show ?thesis
  proof (cases "currentIndex h + 2 > maxHistory")
    case True
    with assms have full: "nat (currentIndex h + 1) = length (history h)" "history h \<noteq> []"
      by (auto simp: hist_inv_def maxHistory_def)
    then have "take (nat (currentIndex h + 1)) (history h) = history h" by simp
    with True len full show ?thesis
      by (simp add: push_def sl Let_def)
  next
    case False
    with len show ?thesis by (simp add: push_def sl Let_def)
  qed
qed

lemma hist_inv_push: "hist_inv h \<Longrightarrow> hist_inv (push entry h)"
  by (auto simp: push_closed hist_inv_def maxHistory_def)

lemma undo_closed:
  assumes "hist_inv h"
  shows "undo h = (if currentIndex h \<ge> 0
                   then Inr (Some (previousState (history h ! nat (currentIndex h))),
                             h\<lparr>currentIndex := currentIndex h - 1\<rparr>)
                   else Inr (None, h))"
  using assms by (simp add: undo_def canUndo_def js_nth_def hist_inv_def)

lemma hist_inv_apply:
  assumes "hist_inv h"
  shows "\<exists>h'. apply_op x h = Inr h' \<and> hist_inv h'"
proof (cases x)
  case (Push entry)
  with assms show ?thesis by (simp add: hist_inv_push)
next
  case Undo
  with assms show ?thesis by (auto simp: undo_closed hist_inv_def)
next
  case Redo
  with assms show ?thesis by (auto simp: redo_def canRedo_def hist_inv_def Let_def)
next
  case Clear
  then show ?thesis by (simp add: clear_def hist_inv_def maxHistory_def)
qed

lemma hist_inv_run:
  "hist_inv h \<Longrightarrow> \<exists>h'. run_ops xs h = Inr h' \<and> hist_inv h'"
proof (induction xs arbitrary: h)
  case Nil
  then show ?case by simp
next
  case (Cons x xs)
  from hist_inv_apply[OF Cons.prems, of x] obtain h1 where h1: "apply_op x h = Inr h1" "hist_inv h1"
    by blast
  from Cons.IH[OF h1(2)] h1(1) show ?case by simp
qed

text \<open>
  C8: for every history \<open>h\<close> obtained from a new \<open>GameHistory\<close> by any sequence of
  push, undo, redo and clear (no call of the sequence raises): \<open>size()\<close> is at most 100;
  right after \<open>push(entry)\<close>, \<open>undo()\<close> returns \<open>entry.previousState\<close>; if undo is
  available, then after \<open>undo()\<close> and \<open>push(entry)\<close> \<open>canRedo()\<close> is false and the list is
  the entries before the undone one followed by the new entry, so \<open>size()\<close> is the old
  cursor plus one; and a push onto a full history whose cursor is at the end drops the
  oldest entry, keeps the size at 100 and leaves the cursor at 99 (the increment is
  undone by the decrement).
\<close>

theorem history_push_undo:
  "\<exists>h. run_ops ops newHistory = Inr h
     \<and> size_history h \<le> 100
     \<and> (\<exists>h'. undo (push entry h) = Inr (Some (previousState entry), h'))
     \<and> (canUndo h \<longrightarrow>
          (\<exists>v h1. undo h = Inr (v, h1)
             \<and> \<not> canRedo (push entry h1)
             \<and> history (push entry h1) = take (nat (currentIndex h)) (history h) @ [entry]
             \<and> size_history (push entry h1) = currentIndex h + 1
             \<and> size_history (push entry h1) \<le> size_history h))
     \<and> (size_history h = 100 \<and> currentIndex h = 99 \<longrightarrow>
          history (push entry h) = tl (history h) @ [entry]
          \<and> currentIndex (push entry h) = 99
          \<and> size_history (push entry h) = 100)"
proof -
  from hist_inv_run[OF hist_inv_new, of ops] obtain h
    where h: "run_ops ops newHistory = Inr h" and inv: "hist_inv h" by blast
  have sz: "size_history h \<le> 100"
    using inv by (simp add: hist_inv_def size_history_def maxHistory_def)
  have inv': "hist_inv (push entry h)" by (rule hist_inv_push[OF inv])
  have u2: "undo (push entry h) =
      (if currentIndex (push entry h) \<ge> 0
       then Inr (Some (previousState (history (push entry h) ! nat (currentIndex (push entry h)))),
                 (push entry h)\<lparr>currentIndex := currentIndex (push entry h) - 1\<rparr>)
       else Inr (None, push entry h))"
    by (rule undo_closed[OF inv'])
  have pu: "\<exists>h'. undo (push entry h) = Inr (Some (previousState entry), h')"
  proof (cases "currentIndex h + 2 > maxHistory")
    case True
    with inv have full: "nat (currentIndex h) = length (tl (history h))" "0 \<le> currentIndex h"
      by (auto simp: hist_inv_def maxHistory_def)
    from True have hp: "history (push entry h) = tl (history h) @ [entry]"
      "currentIndex (push entry h) = currentIndex h"
      by (simp_all add: push_closed[OF inv])
    have "(tl (history h) @ [entry]) ! nat (currentIndex h) = entry"
      unfolding full(1) by (rule nth_append_length)
    then show ?thesis unfolding u2 hp using full(2) by simp
  next
    case False
    with inv have b: "0 \<le> currentIndex h + 1"
      "nat (currentIndex h + 1) = length (take (nat (currentIndex h + 1)) (history h))"
      by (auto simp: hist_inv_def)
    from False have hp: "history (push entry h) = take (nat (currentIndex h + 1)) (history h) @ [entry]"
      "currentIndex (push entry h) = currentIndex h + 1"
      by (simp_all add: push_closed[OF inv])
    have "(take (nat (currentIndex h + 1)) (history h) @ [entry]) ! nat (currentIndex h + 1) = entry"
      by (subst (2) b(2)) (rule nth_append_length)
    then show ?thesis unfolding u2 hp using b(1) by simp
  qed
  have un: "\<exists>v h1. undo h = Inr (v, h1)
             \<and> \<not> canRedo (push entry h1)
             \<and> history (push entry h1) = take (nat (currentIndex h)) (history h) @ [entry]
             \<and> size_history (push entry h1) = currentIndex h + 1
             \<and> size_history (push entry h1) \<le> size_history h" if cu: "canUndo h"
  proof -
    from cu have ci: "0 \<le> currentIndex h" by (simp add: canUndo_def)
    let ?h1 = "h\<lparr>currentIndex := currentIndex h - 1\<rparr>"
    have u: "undo h = Inr (Some (previousState (history h ! nat (currentIndex h))), ?h1)"
      using ci by (simp add: undo_closed[OF inv])
    have inv1: "hist_inv ?h1" using inv ci by (simp add: hist_inv_def)
    have small: "\<not> currentIndex ?h1 + 2 > maxHistory" using inv by (simp add: hist_inv_def)
    have p: "push entry ?h1 = \<lparr>history = take (nat (currentIndex h)) (history h) @ [entry],
                               currentIndex = currentIndex h\<rparr>"
      using small by (simp add: push_closed[OF inv1])
    have "\<not> canRedo (push entry ?h1)"
      unfolding p using inv ci by (simp add: canRedo_def hist_inv_def)
    moreover have "size_history (push entry ?h1) = currentIndex h + 1"
      unfolding p using inv ci by (auto simp: size_history_def hist_inv_def min_def)
    moreover have "size_history (push entry ?h1) \<le> size_history h"
      unfolding p using inv ci by (auto simp: size_history_def hist_inv_def min_def)
    ultimately show ?thesis using u p by simp
  qed
  have ev: "history (push entry h) = tl (history h) @ [entry]
          \<and> currentIndex (push entry h) = 99
          \<and> size_history (push entry h) = 100" if "size_history h = 100 \<and> currentIndex h = 99"
    using that by (simp add: push_closed[OF inv] maxHistory_def size_history_def)
  from h sz pu un ev show ?thesis by blast
qed

lemma run_ops_append:
  "run_ops (xs @ ys) h = (case run_ops xs h of Inl e \<Rightarrow> Inl e | Inr h' \<Rightarrow> run_ops ys h')"
  by (induction xs arbitrary: h) (simp_all split: sum.splits)

lemma run_pushes:
  "n \<le> 100 \<Longrightarrow> run_ops (replicate n (Push e)) newHistory
     = Inr \<lparr>history = replicate n e, currentIndex = int n - 1\<rparr>"
proof (induction n)
  case 0
  then show ?case by (simp add: newHistory_def)
next
  case (Suc n)
  then have ih: "run_ops (replicate n (Push e)) newHistory
     = Inr \<lparr>history = replicate n e, currentIndex = int n - 1\<rparr>" by simp
  have p: "push e \<lparr>history = replicate n e, currentIndex = int n - 1\<rparr>
        = \<lparr>history = replicate (Suc n) e, currentIndex = int (Suc n) - 1\<rparr>"
    using Suc.prems
    by (simp add: push_def js_slice0_def Let_def maxHistory_def replicate_append_same)
  have "replicate (Suc n) (Push e) = replicate n (Push e) @ [Push e]"
    by (simp add: replicate_append_same)
  then have "run_ops (replicate (Suc n) (Push e)) newHistory
        = run_ops [Push e] \<lparr>history = replicate n e, currentIndex = int n - 1\<rparr>"
    by (simp only: run_ops_append ih sum.case)
  also have "\<dots> = Inr \<lparr>history = replicate (Suc n) e, currentIndex = int (Suc n) - 1\<rparr>"
    by (simp only: run_ops.simps apply_op.simps sum.case p)
  finally show ?case .
qed

theorem history_push_undo_witness:
  "run_ops [Push entryA, Push entryB] newHistory = Inr \<lparr>history = [entryA, entryB], currentIndex = 1\<rparr>
   \<and> canUndo \<lparr>history = [entryA, entryB], currentIndex = 1\<rparr>
   \<and> (\<exists>v h1. undo \<lparr>history = [entryA, entryB], currentIndex = 1\<rparr> = Inr (v, h1)
         \<and> \<not> canRedo (push entryA h1) \<and> size_history (push entryA h1) = 2)
   \<and> run_ops (replicate 100 (Push entryA)) newHistory
       = Inr \<lparr>history = replicate 100 entryA, currentIndex = 99\<rparr>
   \<and> size_history \<lparr>history = replicate 100 entryA, currentIndex = 99\<rparr> = 100
   \<and> size_history (push entryB \<lparr>history = replicate 100 entryA, currentIndex = 99\<rparr>) = 100
   \<and> currentIndex (push entryB \<lparr>history = replicate 100 entryA, currentIndex = 99\<rparr>) = 99"
proof -
  let ?h = "\<lparr>history = [entryA, entryB], currentIndex = 1\<rparr>"
  let ?f = "\<lparr>history = replicate 100 entryA, currentIndex = 99\<rparr>"
  have run: "run_ops [Push entryA, Push entryB] newHistory = Inr ?h"
    by (simp add: push_def newHistory_def js_slice0_def maxHistory_def)
  have cu: "canUndo ?h" by (simp add: canUndo_def)
  from history_push_undo[of "[Push entryA, Push entryB]" entryA] run cu
  have a: "\<exists>v h1. undo ?h = Inr (v, h1)
         \<and> \<not> canRedo (push entryA h1) \<and> size_history (push entryA h1) = 2"
    by auto
  have runf: "run_ops (replicate 100 (Push entryA)) newHistory = Inr ?f"
    using run_pushes[of 100 entryA] by simp
  have szf: "size_history ?f = 100 \<and> currentIndex ?f = 99" by (simp add: size_history_def)
  from history_push_undo[of "replicate 100 (Push entryA)" entryB] runf szf
  have b: "size_history (push entryB ?f) = 100 \<and> currentIndex (push entryB ?f) = 99"
    by auto
  from run cu a runf szf b show ?thesis by blast
qed

end
